theory Spec2Isabelle
  imports Main
begin

section \<open>Values, exception records and the thread state\<close>

text \<open>
  The module \<^verbatim>\<open>batavia/modules/_compile/_compile.js\<close> is a port of CPython's parser
  driver (\<^verbatim>\<open>parsetok\<close>), of its error classifier (\<^verbatim>\<open>err_input\<close>) and of its
  exception chainer (\<^verbatim>\<open>PyErr_SetObject\<close>). The file calls helpers and reads constants
  that it does not define (\<^verbatim>\<open>PyErr_Restore\<close>, \<^verbatim>\<open>PyException_GetContext\<close>,
  \<^verbatim>\<open>_compile.E_EOF\<close>, ...); they are marked below where they are introduced.
\<close>

type_synonym ref = nat

datatype exc_class =
    SyntaxError | IndentationError | TabError | MemoryError
  | KeyboardInterrupt | SystemError | NotImplementedError

text \<open>
  The values the three functions handle: JavaScript \<^verbatim>\<open>null\<close> (also written
  \<^verbatim>\<open>NULL\<close> in the file), the object \<^verbatim>\<open>Py_None\<close>, strings, numbers, arrays
  (the tuples of the port), classes of \<^verbatim>\<open>exceptions\<close>, any other class, and references
  to exception instances. Instances are compared by identity, so they are references
  into a store.
\<close>

datatype pyval =
    Null
  | Py_None
  | Str string
  | Num int
  | Tuple "pyval list"
  | Cls exc_class
  | OtherClass string
  | Inst ref

record exc_record =
  cls :: pyval
  args :: "pyval list"
  context' :: pyval
  traceback :: pyval

type_synonym heap = "ref \<Rightarrow> exc_record"

text \<open>
  The state the exception functions work on: the three slots of the thread state, the
  store of exception instances with the next unused reference, and the variable
  \<^verbatim>\<open>value\<close>. \<^verbatim>\<open>PyErr_SetObject\<close> is declared \<^verbatim>\<open>function(exception, o)\<close>, and its
  body reads and assigns \<^verbatim>\<open>value\<close>, which is neither a parameter nor a local of it:
  it is a variable of the enclosing scope, and so a component of the state.
\<close>

record state =
  exc_type :: pyval
  exc_value :: pyval
  exc_traceback :: pyval
  heap :: heap
  nextref :: ref
  value' :: pyval

text \<open>Truthiness of a JavaScript value, as \<^verbatim>\<open>if (x)\<close> and \<^verbatim>\<open>while (x)\<close> test it.\<close>

fun js_truthy :: "pyval \<Rightarrow> bool" where
  "js_truthy Null = False"
| "js_truthy (Str s) = (s \<noteq> [])"
| "js_truthy (Num n) = (n \<noteq> 0)"
| "js_truthy _ = True"

subsection \<open>Helpers the file calls and does not define\<close>

definition PyExceptionClass_Check :: "pyval \<Rightarrow> bool" where
  \<comment> \<open>Modelled from the spec: the helper is not in the file; the kinds of section 7
      (the classes of \<^verbatim>\<open>exceptions\<close>) are the exception classes.\<close>
  "PyExceptionClass_Check x = (case x of Cls k \<Rightarrow> True | _ \<Rightarrow> False)"

definition PyExceptionInstance_Check :: "pyval \<Rightarrow> bool" where
  \<comment> \<open>Modelled from the spec: the helper is not in the file; an ExceptionRecord
      (section 3) is an instance in the store.\<close>
  "PyExceptionInstance_Check x = (case x of Inst r \<Rightarrow> True | _ \<Rightarrow> False)"

definition PyTuple_Check :: "pyval \<Rightarrow> bool" where
  \<comment> \<open>Modelled from the spec: the helper is not in the file; "a positional sequence"
      (section 4.3).\<close>
  "PyTuple_Check x = (case x of Tuple xs \<Rightarrow> True | _ \<Rightarrow> False)"

definition PyTuple_New0 :: pyval where
  \<comment> \<open>\<^verbatim>\<open>PyTuple_New(0)\<close>\<close>
  "PyTuple_New0 = Tuple []"

definition PyTuple_Pack1 :: "pyval \<Rightarrow> pyval" where
  \<comment> \<open>\<^verbatim>\<open>PyTuple_Pack(1, value)\<close>\<close>
  "PyTuple_Pack1 v = Tuple [v]"

definition PyException_GetContext :: "heap \<Rightarrow> pyval \<Rightarrow> pyval" where
  \<comment> \<open>Modelled from the spec: the helper is not in the file; the optional \<^verbatim>\<open>context\<close>
      field of an ExceptionRecord (section 3). A value that is no record has none.\<close>
  "PyException_GetContext h x = (case x of Inst r \<Rightarrow> context' (h r) | _ \<Rightarrow> Null)"

definition PyException_SetContext :: "heap \<Rightarrow> pyval \<Rightarrow> pyval \<Rightarrow> heap" where
  \<comment> \<open>Modelled from the spec: the helper is not in the file; it stores the
      \<^verbatim>\<open>context\<close> field of a record (section 4.3, "set that node's context to none",
      "attach the previously-active record as the new record's context").\<close>
  "PyException_SetContext h x c =
     (case x of Inst r \<Rightarrow> h(r := (h r)\<lparr>context' := c\<rparr>) | _ \<Rightarrow> h)"

definition PyException_GetTraceback :: "heap \<Rightarrow> pyval \<Rightarrow> pyval" where
  \<comment> \<open>Modelled from the spec: the helper is not in the file; the optional
      \<^verbatim>\<open>traceback\<close> field of an ExceptionRecord (section 3).\<close>
  "PyException_GetTraceback h x = (case x of Inst r \<Rightarrow> traceback (h r) | _ \<Rightarrow> Null)"

definition PyErr_Restore :: "pyval \<Rightarrow> pyval \<Rightarrow> pyval \<Rightarrow> state \<Rightarrow> state" where
  \<comment> \<open>Modelled from the spec: the helper is not in the file; "install the new record as
      active, fully replacing the previous state" (section 4.3). The slot it writes is
      the one \<^verbatim>\<open>tstate.exc_value\<close> reads: the spec has one ExceptionState slot.\<close>
  "PyErr_Restore t v tb s = s\<lparr>exc_type := t, exc_value := v, exc_traceback := tb\<rparr>"

definition PyErr_Clear :: "state \<Rightarrow> state" where
  \<comment> \<open>Modelled from the spec: the helper is not in the file; "clear the active slot"
      (section 4.3).\<close>
  "PyErr_Clear s = PyErr_Restore Null Null Null s"

definition PyErr_Occurred :: "state \<Rightarrow> bool" where
  \<comment> \<open>Modelled from the spec: the helper is not in the file; whether "an exception is
      currently active" (section 4.2).\<close>
  "PyErr_Occurred s = (exc_type s \<noteq> Null)"

definition PyErr_Fetch :: "state \<Rightarrow> (pyval \<times> pyval \<times> pyval) \<times> state" where
  \<comment> \<open>Modelled from the spec: the helper is not in the file; it hands over the
      "previously captured" record (section 4.2) and leaves the slot empty.\<close>
  "PyErr_Fetch s = ((exc_type s, exc_value s, exc_traceback s), PyErr_Clear s)"

definition PyEval_CallObject :: "pyval \<Rightarrow> pyval \<Rightarrow> state \<Rightarrow> (pyval \<times> state) option" where
  \<comment> \<open>Modelled from the spec: the helper is not in the file; the construction of an
      error instance from a kind and its arguments (section 4.3). The new record has no
      context and no traceback. Calling what is no exception class constructs nothing
      (the \<^verbatim>\<open>fixed_value == NULL\<close> of the caller).\<close>
  "PyEval_CallObject callee a s =
     (case (callee, a) of
        (Cls k, Tuple xs) \<Rightarrow>
          Some (Inst (nextref s),
                s\<lparr>heap := (heap s)(nextref s :=
                        \<lparr>cls = Cls k, args = xs, context' = Null, traceback = Null\<rparr>),
                  nextref := Suc (nextref s)\<rparr>)
      | _ \<Rightarrow> None)"


section \<open>The exception chainer\<close>

text \<open>
  The loop of lines 83 to 91 of \<^verbatim>\<open>PyErr_SetObject\<close>: from the previously active
  value, follow the context links; at the first link that leads to the new value, cut
  it. The loop has no bound of its own: on a cyclic chain that does not hold the new
  value it does not return, which is the result \<open>None\<close>. (Line 84 declares a local
  \<^verbatim>\<open>ontext\<close>; the loop assigns \<^verbatim>\<open>context\<close>, which nothing else reads.)
\<close>

partial_function (option) context_walk :: "heap \<Rightarrow> pyval \<Rightarrow> pyval \<Rightarrow> heap option" where
  "context_walk h v o' =
     (let c = PyException_GetContext h o' in
      if js_truthy c then
        (if c = v then Some (PyException_SetContext h o' Null)
         else context_walk h v c)
      else Some h)"

declare context_walk.simps [code]

text \<open>
  Lines 55 to 77: the value is made an instance when it is none yet. \<open>Inl\<close> is the
  \<^verbatim>\<open>return\<close> of line 75, \<open>Inr\<close> goes on to line 82.
\<close>

definition normalize_value :: "pyval \<Rightarrow> state \<Rightarrow> state + state" where
  "normalize_value exception s =
     (if value' s = Null \<or> \<not> PyExceptionInstance_Check (value' s) then
        (let s1 = PyErr_Clear s;
             a = (if value' s1 = Null \<or> value' s1 = Py_None then PyTuple_New0
                  else if PyTuple_Check (value' s1) then value' s1
                  else PyTuple_Pack1 (value' s1));
             fixed_value = (if js_truthy a then PyEval_CallObject exception a s1 else None)
         in case fixed_value of
              None \<Rightarrow> Inl s1
            | Some (fv, s2) \<Rightarrow> Inr (s2\<lparr>value' := fv\<rparr>))
      else Inr s)"

text \<open>Lines 95 to 97: the traceback of the value, and the installation.\<close>

definition restore_value :: "pyval \<Rightarrow> state \<Rightarrow> state" where
  "restore_value exception s =
     (let tb = (if value' s \<noteq> Null \<and> PyExceptionInstance_Check (value' s)
                then PyException_GetTraceback (heap s) (value' s) else Null)
      in PyErr_Restore exception (value' s) tb s)"

text \<open>
  \<^verbatim>\<open>PyErr_SetObject(exception, o)\<close>. \<^verbatim>\<open>PyErr_Format\<close> is not in the file and the spec
  does not describe it: it is a parameter. The second parameter \<open>o'\<close> is never read: the
  body works on the variable \<^verbatim>\<open>value\<close>, and line 83 (\<^verbatim>\<open>var o = exc_value\<close>) gives
  the name \<^verbatim>\<open>o\<close> to the cursor of the loop.
\<close>

type_synonym format = "pyval \<Rightarrow> string \<Rightarrow> pyval \<Rightarrow> state \<Rightarrow> state"

definition PyErr_SetObject :: "format \<Rightarrow> pyval \<Rightarrow> pyval \<Rightarrow> state \<Rightarrow> state option" where
  "PyErr_SetObject PyErr_Format exception o' s =
     (if exception \<noteq> Null \<and> \<not> PyExceptionClass_Check exception then
        Some (PyErr_Format (Cls SystemError)
                ''exception %R not a BaseException subclass'' exception s)
      else
        (let ev = exc_value s in
         if ev \<noteq> Null \<and> ev \<noteq> Py_None then
           (case normalize_value exception s of
              Inl s1 \<Rightarrow> Some s1
            | Inr s1 \<Rightarrow>
                if ev \<noteq> value' s1 then
                  (case context_walk (heap s1) (value' s1) ev of
                     None \<Rightarrow> None
                   | Some h \<Rightarrow>
                       Some (restore_value exception
                         (s1\<lparr>heap := PyException_SetContext h (value' s1) ev\<rparr>)))
                else Some (restore_value exception s1))
         else Some (restore_value exception s)))"

definition PyErr_SetNone :: "format \<Rightarrow> pyval \<Rightarrow> state \<Rightarrow> state option" where
  "PyErr_SetNone PyErr_Format exception s = PyErr_SetObject PyErr_Format exception Null s"

text \<open>A sequence of raises, each \<^verbatim>\<open>PyErr_SetObject(exception, o)\<close>, one after the other.\<close>

fun raises :: "format \<Rightarrow> (pyval \<times> pyval) list \<Rightarrow> state \<Rightarrow> state option" where
  "raises PyErr_Format [] s = Some s"
| "raises PyErr_Format ((exception, o') # rs) s =
     (case PyErr_SetObject PyErr_Format exception o' s of
        None \<Rightarrow> None
      | Some s1 \<Rightarrow> raises PyErr_Format rs s1)"

section \<open>The error classifier\<close>

text \<open>
  The error kinds. The constants \<^verbatim>\<open>_compile.E_OK\<close>, ... are not in the file; they are
  the codes of the Token Source and of the Grammar Engine, whose enumeration "is not
  specified here" (section 9 of the spec): \<open>E_OTHER\<close> stands for any further code.
\<close>

datatype errcode =
    E_OK | E_EOF | E_INTR | E_TOKEN | E_SYNTAX | E_NOMEM | E_DONE | E_ERROR
  | E_TABSPACE | E_OVERFLOW | E_TOODEEP | E_DEDENT | E_DECODE | E_EOFS | E_EOLS
  | E_LINECONT | E_IDENTIFIER | E_BADSINGLE | E_OTHER int

text \<open>
  The token types the file names. The constants are not in the file; token types are
  numbers (\<^verbatim>\<open>ErrorDetail\<close> starts \<^verbatim>\<open>token\<close> and \<^verbatim>\<open>expected\<close> at -1). The numbers are
  those of CPython's \<^verbatim>\<open>token.h\<close>, of which the file is a port; the functions only compare
  them.
\<close>

definition ENDMARKER :: int where "ENDMARKER = 0"
definition NEWLINE :: int where "NEWLINE = 4"
definition INDENT :: int where "INDENT = 5"
definition DEDENT :: int where "DEDENT = 6"
definition ERRORTOKEN :: int where "ERRORTOKEN = 56"

lemmas token_defs = ENDMARKER_def NEWLINE_def INDENT_def DEDENT_def ERRORTOKEN_def

record ErrorDetail =
  error :: errcode
  lineno :: int
  offset :: int
  text' :: "string option"
  token :: int
  expected :: int
  filename :: string

text \<open>The constructor \<^verbatim>\<open>ErrorDetail(filename)\<close>; an absent or empty name is falsy.\<close>

definition new_ErrorDetail :: "string option \<Rightarrow> ErrorDetail" where
  "new_ErrorDetail fn =
     \<lparr>error = E_OK, lineno = 0, offset = 0, text' = None, token = -1, expected = -1,
      filename = (case fn of None \<Rightarrow> ''<string>''
                  | Some f \<Rightarrow> if f = [] then ''<string>'' else f)\<rparr>"

text \<open>
  Lines 184 to 198 of \<^verbatim>\<open>err_input\<close>: the position tuple, the payload, and the call of
  the chainer. The calls of \<^verbatim>\<open>console.log\<close> in \<^verbatim>\<open>err_input\<close> only print, and are
  left out.
\<close>

definition position :: "ErrorDetail \<Rightarrow> pyval" where
  "position err =
     (let errtext = (case text' err of None \<Rightarrow> Null
                     | Some t \<Rightarrow> if t = [] then Null else Str t)
      in Tuple [Str (filename err), Num (lineno err), Num (offset err), errtext])"

definition payload :: "string \<Rightarrow> pyval \<Rightarrow> ErrorDetail \<Rightarrow> pyval" where
  "payload msg msg_obj err =
     (if js_truthy msg_obj then Tuple [msg_obj, position err]
      else Tuple [Str msg, position err])"

text \<open>
  What \<^verbatim>\<open>err_input\<close> does with the chainer: it returns without a call (the
  \<^verbatim>\<open>return\<close> of lines 112 and 138), it calls \<^verbatim>\<open>PyErr_SetNone(kind)\<close> (lines 137 and
  140), or it calls \<^verbatim>\<open>PyErr_SetObject(errtype, w)\<close> (line 198).
\<close>

datatype chainer_call = No_call | Call_SetNone pyval | Call_SetObject pyval pyval

text \<open>
  The body of \<^verbatim>\<open>err_input\<close> up to its call of the chainer: the call it makes, with its
  arguments, and the state in which it makes it (\<^verbatim>\<open>PyErr_Fetch\<close>, in the arm of
  \<open>E_DECODE\<close>, empties the slot first).
\<close>

definition err_input_call :: "ErrorDetail \<Rightarrow> state \<Rightarrow> chainer_call \<times> state" where
  "err_input_call err s =
     (let set_object = (\<lambda>errtype msg.
            (Call_SetObject (Cls errtype) (payload msg Null err), s))
      in case error err of
        E_ERROR \<Rightarrow> (No_call, s)
      | E_SYNTAX \<Rightarrow>
          if expected err = INDENT then set_object IndentationError ''expected an indented block''
          else if token err = INDENT then set_object IndentationError ''unexpected indent''
          else if token err = DEDENT then set_object IndentationError ''unexpected unindent''
          else set_object SyntaxError ''invalid syntax''
      | E_TOKEN \<Rightarrow> set_object SyntaxError ''invalid token''
      | E_EOFS \<Rightarrow>
          set_object SyntaxError ''EOF while scanning triple-quoted string literal''
      | E_EOLS \<Rightarrow> set_object SyntaxError ''EOL while scanning string literal''
      | E_INTR \<Rightarrow>
          if \<not> PyErr_Occurred s then (Call_SetNone (Cls KeyboardInterrupt), s)
          else (No_call, s)
      | E_NOMEM \<Rightarrow> (Call_SetNone (Cls MemoryError), s)
      | E_EOF \<Rightarrow> set_object SyntaxError ''unexpected EOF while parsing''
      | E_TABSPACE \<Rightarrow>
          set_object TabError ''inconsistent use of tabs and spaces in indentation''
      | E_OVERFLOW \<Rightarrow> set_object SyntaxError ''expression too long''
      | E_DEDENT \<Rightarrow>
          set_object IndentationError
            ''unindent does not match any outer indentation level''
      | E_TOODEEP \<Rightarrow> set_object IndentationError ''too many levels of indentation''
      | E_DECODE \<Rightarrow>
          (case PyErr_Fetch s of
             ((t, v, tb), s1) \<Rightarrow>
               (Call_SetObject (Cls SyntaxError)
                  (payload ''unknown decode error'' (if v \<noteq> Null then v else Null) err),
                s1))
      | E_LINECONT \<Rightarrow>
          set_object SyntaxError ''unexpected character after line continuation character''
      | E_IDENTIFIER \<Rightarrow> set_object SyntaxError ''invalid character in identifier''
      | E_BADSINGLE \<Rightarrow>
          set_object SyntaxError
            ''multiple statements found while compiling a single statement''
      | _ \<Rightarrow> set_object SyntaxError ''unknown parsing error'')"

text \<open>\<^verbatim>\<open>err_input(err)\<close>: the body, and the call of the chainer carried out.\<close>

definition err_input :: "format \<Rightarrow> ErrorDetail \<Rightarrow> state \<Rightarrow> state option" where
  "err_input PyErr_Format err s =
     (case err_input_call err s of
        (No_call, s1) \<Rightarrow> Some s1
      | (Call_SetNone exception, s1) \<Rightarrow> PyErr_SetNone PyErr_Format exception s1
      | (Call_SetObject errtype w, s1) \<Rightarrow> PyErr_SetObject PyErr_Format errtype w s1)"


section \<open>The parse driver\<close>

subsection \<open>The collaborators\<close>

text \<open>
  The Token Source, as far as \<^verbatim>\<open>parsetok\<close> reads and writes it. The tokenizer is not
  in the file; what else it keeps is the extension of the record. \<^verbatim>\<open>tok.lineno\<close>,
  \<^verbatim>\<open>tok.filename\<close> and \<^verbatim>\<open>tok.done\<close> are the fields \<open>tok_lineno\<close>,
  \<open>tok_filename\<close> and \<open>done'\<close>. The buffer is an array of one-character strings
  (line 376 joins a slice of it).
\<close>

record tok =
  buf :: "char list"
  cur :: int
  inp :: int
  tok_lineno :: int
  line_start :: int
  indent :: int
  pendin :: int
  done' :: errcode
  encoding :: "string option"
  tok_filename :: string

text \<open>
  A parse tree: what the Grammar Engine built, or the wrapper node of lines 383 to 388
  (\<^verbatim>\<open>n_str\<close>, \<^verbatim>\<open>n_nchildren\<close>, \<^verbatim>\<open>n_child\<close>).
\<close>

datatype 'n node = Parsed 'n | Node_encoding_decl string int "'n node"

text \<open>
  The functions of the collaborators that the driver calls, none of them in the file:
  the constructor of the tokenizer, \<^verbatim>\<open>tok.get_token()\<close> (the token's type, start and
  end, and the tokenizer after the call), the constructor of the parser,
  \<^verbatim>\<open>ps.add_token(type, str, lineno, col_offset, expected)\<close> (the code it returns, and
  the parser after the call) and the field \<^verbatim>\<open>ps.p_tree\<close>.
\<close>

record ('t, 'p, 'g, 'n) collaborators =
  Tokenizer :: "string \<Rightarrow> bool \<Rightarrow> 't tok_scheme"
  get_token :: "'t tok_scheme \<Rightarrow> (int \<times> int \<times> int) \<times> 't tok_scheme"
  Parser :: "'g \<Rightarrow> int \<Rightarrow> 'p"
  add_token :: "'p \<Rightarrow> int \<Rightarrow> string \<Rightarrow> int \<Rightarrow> int \<Rightarrow> int \<Rightarrow> errcode \<times> 'p"
  p_tree :: "'p \<Rightarrow> 'n node option"

text \<open>The start symbols (lines 17 to 19).\<close>

definition single_input :: int where "single_input = 256"
definition file_input :: int where "file_input = 257"
definition eval_input :: int where "eval_input = 258"

subsection \<open>JavaScript arrays\<close>

definition buf_at :: "char list \<Rightarrow> int \<Rightarrow> char option" where
  \<comment> \<open>\<^verbatim>\<open>buf[i]\<close>: \<^verbatim>\<open>undefined\<close> outside the array\<close>
  "buf_at b i = (if 0 \<le> i \<and> i < int (length b) then Some (b ! nat i) else None)"

definition js_slice :: "'a list \<Rightarrow> int \<Rightarrow> int \<Rightarrow> 'a list" where
  \<comment> \<open>\<^verbatim>\<open>xs.slice(a, b)\<close>: a negative index counts from the end, both are clamped\<close>
  "js_slice xs a b =
     (let n = int (length xs);
          k = (if a < 0 then max (n + a) 0 else min a n);
          e = (if b < 0 then max (n + b) 0 else min b n)
      in take (nat (e - k)) (drop (nat k) xs))"

fun js_join :: "string \<Rightarrow> char list \<Rightarrow> string" where
  \<comment> \<open>\<^verbatim>\<open>xs.join(sep)\<close> of an array of one-character strings\<close>
  "js_join sep [] = []"
| "js_join sep [c] = [c]"
| "js_join sep (c # cs) = c # sep @ js_join sep cs"

subsection \<open>One turn of the token loop (lines 282 to 327)\<close>

definition end_of_input :: "int \<Rightarrow> int \<Rightarrow> 't tok_scheme \<Rightarrow> int \<times> int \<times> 't tok_scheme" where
  \<comment> \<open>lines 293 to 305: the token type, the flag \<^verbatim>\<open>started\<close> and the tokenizer\<close>
  "end_of_input ty started t =
     (if ty = ENDMARKER \<and> started \<noteq> 0 then
        (NEWLINE, 0,
         if indent t \<noteq> 0 then t\<lparr>pendin := - indent t, indent := 0\<rparr> else t)
      else (ty, 1, t))"

definition token_str :: "char list \<Rightarrow> int \<Rightarrow> int \<Rightarrow> string" where
  \<comment> \<open>lines 306 to 311; \<^verbatim>\<open>str += '\0'\<close> on the slice, an array, joins it with commas\<close>
  "token_str b a e =
     (if e - a > 0 then js_join '','' (js_slice b a e) else []) @ [CHR 0x00]"

definition col_offset :: "int \<Rightarrow> int \<Rightarrow> int" where
  \<comment> \<open>lines 313 to 318\<close>
  "col_offset a ls = (if a \<ge> ls then a - ls else - 1)"

datatype ('t, 'p) turn = Break 't 'p ErrorDetail | Continue 't 'p int ErrorDetail

definition after_add_token ::
  "int \<Rightarrow> int \<Rightarrow> 't \<Rightarrow> ErrorDetail \<Rightarrow> errcode \<times> 'p \<Rightarrow> ('t, 'p) turn" where
  \<comment> \<open>lines 320 to 326\<close>
  "after_add_token ty started t err r =
     (case r of (e, ps) \<Rightarrow>
        (let err1 = err\<lparr>error := e\<rparr> in
         if e \<noteq> E_OK then
           Break t ps (if e \<noteq> E_DONE then err1\<lparr>token := ty\<rparr> else err1)
         else Continue t ps started err1))"

definition parsetok_turn ::
  "('t, 'p, 'g, 'n) collaborators \<Rightarrow> 't tok_scheme \<Rightarrow> 'p \<Rightarrow> int \<Rightarrow> ErrorDetail
     \<Rightarrow> ('t tok_scheme, 'p) turn" where
  "parsetok_turn X t ps started err =
     (case get_token X t of
        ((ty, a, b), t1) \<Rightarrow>
          if ty = ERRORTOKEN then Break t1 ps (err\<lparr>error := done' t1\<rparr>)
          else
            (case end_of_input ty started t1 of
               (ty', started', t2) \<Rightarrow>
                 after_add_token ty' started' t2 err
                   (add_token X ps ty' (token_str (buf t2) a b) (tok_lineno t2)
                      (col_offset a (line_start t2)) (expected err))))"

text \<open>The loop \<^verbatim>\<open>for (;;)\<close>: it ends at a \<^verbatim>\<open>break\<close> only, so it may not return.\<close>

partial_function (option) parsetok_loop ::
  "('t, 'p, 'g, 'n) collaborators \<Rightarrow> 't tok_scheme \<Rightarrow> 'p \<Rightarrow> int \<Rightarrow> ErrorDetail
     \<Rightarrow> ('t tok_scheme \<times> 'p \<times> ErrorDetail) option" where
  "parsetok_loop X t ps started err =
     (case parsetok_turn X t ps started err of
        Break t1 ps1 err1 \<Rightarrow> Some (t1, ps1, err1)
      | Continue t1 ps1 started1 err1 \<Rightarrow> parsetok_loop X t1 ps1 started1 err1)"

declare parsetok_loop.simps [code]


subsection \<open>After the loop (lines 329 to 391)\<close>

text \<open>
  The characters the scan of line 342 skips; the argument is \<^verbatim>\<open>tok.buf[tok.cur]\<close>,
  which is \<^verbatim>\<open>undefined\<close> past the end of the buffer.
\<close>

definition is_blank :: "char option \<Rightarrow> bool" where
  "is_blank c =
     (c = Some CHR '' '' \<or> c = Some CHR 0x09 \<or> c = Some CHR 0x0A \<or> c = Some CHR 0x0C)"

lemma buf_at_SomeD: "buf_at b i = Some c \<Longrightarrow> 0 \<le> i \<and> i < int (length b)"
  by (simp add: buf_at_def split: if_splits)

lemma is_blank_in_range: "is_blank (buf_at b i) \<Longrightarrow> 0 \<le> i \<and> i < int (length b)"
  by (auto simp: is_blank_def dest: buf_at_SomeD)

function skip_blanks :: "char list \<Rightarrow> int \<Rightarrow> int" where
  \<comment> \<open>lines 342 to 344\<close>
  "skip_blanks b i = (if is_blank (buf_at b i) then skip_blanks b (i + 1) else i)"
  by pat_completeness auto
termination
  by (relation "measure (\<lambda>(b, i). nat (int (length b) - i))")
     (auto dest: is_blank_in_range)

function skip_comment :: "char list \<Rightarrow> int \<Rightarrow> int" where
  \<comment> \<open>lines 357 to 359\<close>
  "skip_comment b i =
     (if buf_at b i \<noteq> None \<and> buf_at b i \<noteq> Some CHR 0x0A then skip_comment b (i + 1)
      else i)"
  by pat_completeness auto
termination
  by (relation "measure (\<lambda>(b, i). nat (int (length b) - i))")
     (auto dest: buf_at_SomeD)

declare skip_blanks.simps [simp del] skip_comment.simps [simp del]

lemma skip_blanks_ge: "i \<le> skip_blanks b i"
proof (induction b i rule: skip_blanks.induct)
  case (1 b i)
  then show ?case by (subst skip_blanks.simps) (auto split: if_splits)
qed

lemma skip_comment_ge: "i \<le> skip_comment b i"
proof (induction b i rule: skip_comment.induct)
  case (1 b i)
  then show ?case by (subst skip_comment.simps) (auto split: if_splits)
qed

lemma skip_comment_gt:
  assumes "buf_at b i \<noteq> None" "buf_at b i \<noteq> Some CHR 0x0A"
  shows "i < skip_comment b i"
proof -
  have "skip_comment b i = skip_comment b (i + 1)"
    using assms by (subst skip_comment.simps) simp
  with skip_comment_ge [of "i + 1" b] show ?thesis by simp
qed

text \<open>
  The loop of lines 341 to 360: whether something other than blanks and comments is
  left, and where the cursor \<^verbatim>\<open>tok.cur\<close> stands then.
\<close>

function single_scan :: "char list \<Rightarrow> int \<Rightarrow> bool \<times> int" where
  "single_scan b i =
     (let j = skip_blanks b i; c = buf_at b j in
      if c = None then (False, j)
      else if c \<noteq> Some CHR ''#'' then (True, j)
      else single_scan b (skip_comment b j))"
  by pat_completeness auto
termination
proof (relation "measure (\<lambda>(b, i). nat (int (length b) - i))", goal_cases)
  case 1
  show ?case by simp
next
  case (2 b i j c)
  have "i \<le> j" using 2 skip_blanks_ge by simp
  moreover have "j < skip_comment b j" using 2 by (intro skip_comment_gt) auto
  moreover have "j < int (length b)" using 2 by (auto dest: buf_at_SomeD)
  ultimately show ?case by simp
qed

declare single_scan.simps [simp del]

definition parsetok_done ::
  "('t, 'p, 'g, 'n) collaborators \<Rightarrow> int \<Rightarrow> 't tok_scheme \<Rightarrow> 'p \<Rightarrow> ErrorDetail
     \<Rightarrow> 'n node option \<times> 't tok_scheme \<times> ErrorDetail" where
  \<comment> \<open>lines 329 to 364: the tree \<^verbatim>\<open>n\<close>, the tokenizer and the error detail\<close>
  "parsetok_done X start t ps err =
     (if error err = E_DONE then
        (let n = p_tree X ps in
         if start = single_input then
           (case single_scan (buf t) (cur t) of
              (bad, i) \<Rightarrow>
                if bad then (None, t\<lparr>cur := i\<rparr>, err\<lparr>error := E_BADSINGLE\<rparr>)
                else (n, t\<lparr>cur := i\<rparr>, err))
         else (n, t, err))
      else (None, t, err))"

definition parsetok_finish ::
  "'n node option \<Rightarrow> 't tok_scheme \<Rightarrow> ErrorDetail
     \<Rightarrow> 'n node option \<times> 't tok_scheme \<times> ErrorDetail" where
  \<comment> \<open>lines 366 to 391; line 378 (\<^verbatim>\<open>err_ret += '\0'\<close>) rebinds the local name
      \<^verbatim>\<open>err_ret\<close> and leaves the caller's record as it is\<close>
  "parsetok_finish n t err =
     (case n of
        None \<Rightarrow>
          (let err1 = (if done' t = E_EOF then err\<lparr>error := E_EOF\<rparr> else err);
               len = inp t;
               txt = (if len > 0 then js_join [] (js_slice (buf t) 0 len) else [])
           in (None, t, err1\<lparr>lineno := tok_lineno t, offset := cur t, text' := Some txt\<rparr>))
      | Some tree \<Rightarrow>
          (case encoding t of
             None \<Rightarrow> (Some tree, t, err)
           | Some enc \<Rightarrow> (Some (Node_encoding_decl enc 1 tree), t\<lparr>encoding := None\<rparr>, err)))"

definition parsetok ::
  "('t, 'p, 'g, 'n) collaborators \<Rightarrow> 't tok_scheme \<Rightarrow> 'g \<Rightarrow> int \<Rightarrow> ErrorDetail \<Rightarrow> int
     \<Rightarrow> ('n node option \<times> 't tok_scheme \<times> ErrorDetail) option" where
  "parsetok X t g start err_ret flags =
     (case parsetok_loop X t (Parser X g start) 0 err_ret of
        None \<Rightarrow> None
      | Some (t1, ps1, err1) \<Rightarrow>
          (case parsetok_done X start t1 ps1 err1 of
             (n, t2, err2) \<Rightarrow> Some (parsetok_finish n t2 err2)))"

definition parse_string_object ::
  "('t, 'p, 'g, 'n) collaborators \<Rightarrow> string \<Rightarrow> string option \<Rightarrow> 'g \<Rightarrow> int \<Rightarrow> int
     \<Rightarrow> ('n node option \<times> 't tok_scheme \<times> ErrorDetail) option" where
  "parse_string_object X s fn grammar start iflags =
     (let exec_input = (start = file_input);
          err_ret = new_ErrorDetail fn;
          t = (Tokenizer X s exec_input)\<lparr>tok_filename := filename err_ret\<rparr>
      in parsetok X t grammar start err_ret iflags)"


section \<open>Example collaborators\<close>

text \<open>
  A Token Source that plays a script of tokens, serves the pending dedents first and
  ends with the end-marker, and a Grammar Engine that records what it is fed, is done
  at the end-marker and rejects the token type 99. They serve the examples.
\<close>

type_synonym script = "(int \<times> int \<times> int) list"
type_synonym fed = "(int \<times> string \<times> int \<times> int) list"

definition demo_get_token :: "script tok_scheme \<Rightarrow> (int \<times> int \<times> int) \<times> script tok_scheme" where
  "demo_get_token t =
     (if pendin t < 0 then ((DEDENT, cur t, cur t), t\<lparr>pendin := pendin t + 1\<rparr>)
      else case tok.more t of
             [] \<Rightarrow> ((ENDMARKER, cur t, cur t), t\<lparr>done' := E_EOF\<rparr>)
           | (ty, a, b) # ts \<Rightarrow> ((ty, a, b), t\<lparr>cur := b, tok.more := ts\<rparr>))"

definition demo_add_token ::
  "fed \<Rightarrow> int \<Rightarrow> string \<Rightarrow> int \<Rightarrow> int \<Rightarrow> int \<Rightarrow> errcode \<times> fed" where
  "demo_add_token ps ty str ln col ex =
     (if ty = ENDMARKER then E_DONE else if ty = 99 then E_SYNTAX else E_OK,
      ps @ [(ty, str, ln, col)])"

definition demo :: "(script, fed, unit, fed) collaborators" where
  "demo =
     \<lparr>Tokenizer = (\<lambda>s e. \<lparr>buf = s, cur = 0, inp = int (length s), tok_lineno = 1,
          line_start = 0, indent = 0, pendin = 0, done' = E_OK, encoding = None,
          tok_filename = [], \<dots> = []\<rparr>),
      get_token = demo_get_token,
      Parser = (\<lambda>g start. []),
      add_token = demo_add_token,
      p_tree = (\<lambda>ps. Some (Parsed ps))\<rparr>"

definition demo_tok :: "string \<Rightarrow> int \<Rightarrow> script \<Rightarrow> script tok_scheme" where
  "demo_tok s ind ts = (Tokenizer demo s True)\<lparr>indent := ind, tok.more := ts\<rparr>"

text \<open>
  A Grammar Engine watched: the collaborators \<open>X\<close> with, beside the state of the
  engine, the list of the tokens it was fed. The verdicts of the engine are those of
  \<open>X\<close>.
\<close>

definition recording ::
  "('t, 'p, 'g, 'n) collaborators \<Rightarrow> ('t, 'p \<times> fed, 'g, 'n) collaborators" where
  "recording X =
     \<lparr>Tokenizer = Tokenizer X,
      get_token = get_token X,
      Parser = (\<lambda>g start. (Parser X g start, [])),
      add_token = (\<lambda>(ps, log) ty str ln col ex.
         (case add_token X ps ty str ln col ex of
            (e, ps') \<Rightarrow> (e, (ps', log @ [(ty, str, ln, col)])))),
      p_tree = (\<lambda>(ps, log). p_tree X ps)\<rparr>"

section \<open>Predicates of the specification\<close>

text \<open>
  What is left after a single statement is fine when it is made of blanks (space, tab,
  newline, form feed) and of comments, each from a \<^verbatim>\<open>#\<close> to the end of its line.
\<close>

definition blank :: "char \<Rightarrow> bool" where
  "blank c = (c = CHR '' '' \<or> c = CHR 0x09 \<or> c = CHR 0x0A \<or> c = CHR 0x0C)"

function blanks_and_comments :: "string \<Rightarrow> bool" where
  "blanks_and_comments [] = True"
| "blanks_and_comments (c # cs) =
     (if blank c then blanks_and_comments cs
      else if c = CHR ''#'' then blanks_and_comments (dropWhile (\<lambda>x. x \<noteq> CHR 0x0A) cs)
      else False)"
  by pat_completeness auto
termination
  by (relation "measure length") (auto simp: less_Suc_eq_le length_dropWhile_le)

text \<open>
  The context chain of a value: the values met by following the context links from
  it, up to the first link that is not set. A heap is acyclic when every value has
  such a chain, that is, when every walk along the context links ends.
\<close>

fun context_chain :: "heap \<Rightarrow> pyval \<Rightarrow> pyval list \<Rightarrow> bool" where
  "context_chain h v [] = (\<not> js_truthy (PyException_GetContext h v))"
| "context_chain h v (c # cs) =
     (js_truthy c \<and> PyException_GetContext h v = c \<and> context_chain h c cs)"

definition acyclic_heap :: "heap \<Rightarrow> bool" where
  "acyclic_heap h = (\<forall>v. \<exists>cs. context_chain h v cs)"

text \<open>
  Two relations between a heap and a later one: every context link of the later heap
  is the earlier one or is cut; and no record of the later heap is its own context
  unless it was before.
\<close>

definition cut_of :: "heap \<Rightarrow> heap \<Rightarrow> bool" where
  "cut_of h h' = (\<forall>r. context' (h' r) = context' (h r) \<or> context' (h' r) = Null)"

definition no_new_self :: "heap \<Rightarrow> heap \<Rightarrow> bool" where
  "no_new_self h h' = (\<forall>r. context' (h' r) = Inst r \<longrightarrow> context' (h r) = Inst r)"

text \<open>
  The arguments of the constructor for a value that is no instance (section 4.3 of the
  spec): none for an absent value, the elements of a tuple, the value alone otherwise.
\<close>

fun constructor_args :: "pyval \<Rightarrow> pyval list" where
  "constructor_args Null = []"
| "constructor_args Py_None = []"
| "constructor_args (Tuple xs) = xs"
| "constructor_args v = [v]"

text \<open>
  The classifier raising a kind with a message, in a state: it calls
  \<^verbatim>\<open>PyErr_SetObject\<close> in that state, with the kind and with the payload made of the
  message and the position tuple.
\<close>

definition raising ::
  "exc_class \<Rightarrow> string \<Rightarrow> ErrorDetail \<Rightarrow> state \<Rightarrow> chainer_call \<times> state" where
  "raising k msg err s = (Call_SetObject (Cls k) (Tuple [Str msg, position err]), s)"

text \<open>
  The kinds of section 7 of the spec that are raised with one fixed message, each with
  its exception kind and its message.
\<close>

definition fixed_messages :: "(errcode \<times> exc_class \<times> string) list" where
  "fixed_messages =
     [(E_TOKEN, SyntaxError, ''invalid token''),
      (E_EOFS, SyntaxError, ''EOF while scanning triple-quoted string literal''),
      (E_EOLS, SyntaxError, ''EOL while scanning string literal''),
      (E_EOF, SyntaxError, ''unexpected EOF while parsing''),
      (E_TABSPACE, TabError, ''inconsistent use of tabs and spaces in indentation''),
      (E_OVERFLOW, SyntaxError, ''expression too long''),
      (E_DEDENT, IndentationError, ''unindent does not match any outer indentation level''),
      (E_TOODEEP, IndentationError, ''too many levels of indentation''),
      (E_LINECONT, SyntaxError,
         ''unexpected character after line continuation character''),
      (E_IDENTIFIER, SyntaxError, ''invalid character in identifier''),
      (E_BADSINGLE, SyntaxError,
         ''multiple statements found while compiling a single statement'')]"

section \<open>Example states\<close>

definition empty_record :: exc_record where
  "empty_record = \<lparr>cls = Cls SyntaxError, args = [], context' = Null, traceback = Null\<rparr>"

text \<open>Nothing is active, no record has a context, the variable \<^verbatim>\<open>value\<close> holds null.\<close>

definition idle :: state where
  "idle = \<lparr>exc_type = Null, exc_value = Null, exc_traceback = Null,
      heap = (\<lambda>r. empty_record), nextref = 0, value' = Null\<rparr>"

text \<open>
  The record 0 is active; the record 1 exists beside it; the variable \<^verbatim>\<open>value\<close> holds
  null.
\<close>

definition a_active :: state where
  "a_active = \<lparr>exc_type = Cls SyntaxError, exc_value = Inst 0, exc_traceback = Null,
      heap = (\<lambda>r. empty_record), nextref = 2, value' = Null\<rparr>"

text \<open>
  The record 1 is active, its context chain is 2 and then 0, and the variable
  \<^verbatim>\<open>value\<close> holds the record 0.
\<close>

definition demo_heap :: heap where
  "demo_heap = (\<lambda>r. empty_record)
     (1 := empty_record\<lparr>context' := Inst 2\<rparr>, 2 := empty_record\<lparr>context' := Inst 0\<rparr>)"

definition demo_state :: state where
  "demo_state = \<lparr>exc_type = Cls SyntaxError, exc_value = Inst 1, exc_traceback = Null,
      heap = demo_heap, nextref = 3, value' = Inst 0\<rparr>"

definition demo_format :: format where
  "demo_format t msg x s = PyErr_Restore t (Str msg) Null s"

section \<open>Properties of the parse driver\<close>

lemma line_start_end_of_input:
  "end_of_input ty started t = (ty', started', t2) \<Longrightarrow>
     line_start t2 = line_start t \<and> buf t2 = buf t \<and> tok_lineno t2 = tok_lineno t"
  by (auto simp: end_of_input_def split: if_splits)

text \<open>
  Claim C9. For a token that is no error token and starts at \<open>a\<close>: when \<open>a\<close> is before
  the line start the tokenizer records, the column computed is the sentinel -1; when it
  is at or after the line start, the column is \<open>a\<close> minus the line start, and is not
  negative; and this column is the one the turn of the loop hands to the Grammar
  Engine.
\<close>

theorem col_offset_fed:
  assumes "get_token X t = ((ty, a, b), t1)" and "ty \<noteq> ERRORTOKEN"
  shows "(a < line_start t1 \<longrightarrow> col_offset a (line_start t1) = - 1) \<and>
         (line_start t1 \<le> a \<longrightarrow>
            col_offset a (line_start t1) = a - line_start t1 \<and>
            0 \<le> col_offset a (line_start t1)) \<and>
         parsetok_turn X t ps started err =
           (case end_of_input ty started t1 of
              (ty', started', t2) \<Rightarrow>
                after_add_token ty' started' t2 err
                  (add_token X ps ty' (token_str (buf t1) a b) (tok_lineno t1)
                     (if a < line_start t1 then - 1 else a - line_start t1)
                     (expected err)))"
proof -
  obtain ty' started' t2 where e: "end_of_input ty started t1 = (ty', started', t2)"
    by (cases "end_of_input ty started t1") auto
  have col: "col_offset a (line_start t1) =
               (if a < line_start t1 then - 1 else a - line_start t1)"
    by (simp add: col_offset_def)
  show ?thesis
    using assms line_start_end_of_input [OF e] e
    by (simp add: parsetok_turn_def col)
qed

theorem col_offset_fed_witness:
  "col_offset 2 5 = - 1 \<and> col_offset 7 5 = 2 \<and>
   parsetok_turn demo ((demo_tok ''ab'' 0 [(1, 2, 3)])\<lparr>line_start := 5\<rparr>) [] 0
       (new_ErrorDetail None) =
     Continue ((demo_tok ''ab'' 0 [])\<lparr>line_start := 5, cur := 3\<rparr>)
       [(1, [CHR 0x00], 1, - 1)] 1 (new_ErrorDetail None)"
  using col_offset_fed [of demo "(demo_tok ''ab'' 0 [(1, 2, 3)])\<lparr>line_start := 5\<rparr>" 1 2 3
     "(demo_tok ''ab'' 0 [])\<lparr>line_start := 5, cur := 3\<rparr>" "[]" 0 "new_ErrorDetail None"]
   col_offset_fed [of demo "(demo_tok ''ab'' 0 [(1, 7, 8)])\<lparr>line_start := 5\<rparr>" 1 7 8
     "(demo_tok ''ab'' 0 [])\<lparr>line_start := 5, cur := 8\<rparr>"]
  by (simp add: demo_def demo_tok_def demo_get_token_def demo_add_token_def token_defs
      end_of_input_def after_add_token_def token_str_def js_slice_def new_ErrorDetail_def)

lemma recording_simps [simp]:
  "get_token (recording X) = get_token X"
  "add_token (recording X) (ps, log) ty str ln col ex =
     (fst (add_token X ps ty str ln col ex),
      (snd (add_token X ps ty str ln col ex), log @ [(ty, str, ln, col)]))"
  by (simp_all add: recording_def split: prod.splits)

lemma loop_accept:
  assumes "get_token X t = ((ty, a, b), t1)" and "ty \<noteq> ERRORTOKEN"
    and "end_of_input ty st t1 = (ty', st', t2)"
    and "\<forall>s l c e. fst (add_token X ps ty' s l c e) = E_OK"
  shows "\<exists>ps' e. parsetok_loop (recording X) t (ps, log) st err =
           parsetok_loop (recording X) t2 (ps', log @ [e]) st' (err\<lparr>error := E_OK\<rparr>) \<and>
           fst e = ty'"
proof -
  let ?s = "token_str (buf t2) a b" and ?l = "tok_lineno t2"
  let ?c = "col_offset a (line_start t2)"
  have "parsetok_loop (recording X) t (ps, log) st err =
          parsetok_loop (recording X) t2
            (snd (add_token X ps ty' ?s ?l ?c (expected err)), log @ [(ty', ?s, ?l, ?c)])
            st' (err\<lparr>error := E_OK\<rparr>)"
    using assms
    by (subst parsetok_loop.simps) (simp add: parsetok_turn_def after_add_token_def)
  then show ?thesis by force
qed

lemma loop_break:
  assumes "get_token X t = ((ty, a, b), t1)" and "ty \<noteq> ERRORTOKEN"
    and "end_of_input ty st t1 = (ty', st', t2)"
    and "\<forall>s l c e. fst (add_token X ps ty' s l c e) \<noteq> E_OK"
  shows "\<exists>ps' e err'. parsetok_loop (recording X) t (ps, log) st err =
           Some (t2, (ps', log @ [e]), err') \<and> fst e = ty'"
proof -
  let ?s = "token_str (buf t2) a b" and ?l = "tok_lineno t2"
  let ?c = "col_offset a (line_start t2)"
  let ?e = "fst (add_token X ps ty' ?s ?l ?c (expected err))"
  have "parsetok_loop (recording X) t (ps, log) st err =
          Some (t2, (snd (add_token X ps ty' ?s ?l ?c (expected err)),
                     log @ [(ty', ?s, ?l, ?c)]),
                if ?e \<noteq> E_DONE then err\<lparr>error := ?e, token := ty'\<rparr>
                else err\<lparr>error := ?e\<rparr>)"
    using assms
    by (subst parsetok_loop.simps)
       (simp add: parsetok_turn_def after_add_token_def Let_def)
  then show ?thesis by force
qed

lemma dedent_phase:
  assumes ded: "\<forall>t. E t \<and> pendin t < 0 \<longrightarrow>
             (\<exists>a b. get_token X t = ((DEDENT, a, b), t\<lparr>pendin := pendin t + 1\<rparr>))"
    and keep: "\<forall>t p. E t \<longrightarrow> E (t\<lparr>pendin := p\<rparr>)"
    and ok: "\<forall>ps s l c e. fst (add_token X ps DEDENT s l c e) = E_OK"
  shows "E t \<Longrightarrow> pendin t = - int (Suc k) \<Longrightarrow>
     \<exists>ps' es err'. parsetok_loop (recording X) t (ps, log) st err =
        parsetok_loop (recording X) (t\<lparr>pendin := 0\<rparr>) (ps', log @ es) 1 err' \<and>
        map fst es = replicate (Suc k) DEDENT"
proof (induction k arbitrary: t ps log st err)
  case 0
  then obtain a b where g: "get_token X t = ((DEDENT, a, b), t\<lparr>pendin := 0\<rparr>)"
    using ded by fastforce
  have e: "end_of_input DEDENT st (t\<lparr>pendin := 0\<rparr>) = (DEDENT, 1, t\<lparr>pendin := 0\<rparr>)"
    by (simp add: end_of_input_def token_defs)
  from loop_accept [OF g _ e, of ps log err] ok
  obtain ps' x where "parsetok_loop (recording X) t (ps, log) st err =
      parsetok_loop (recording X) (t\<lparr>pendin := 0\<rparr>) (ps', log @ [x]) 1 (err\<lparr>error := E_OK\<rparr>)"
    "fst x = DEDENT"
    by (auto simp: token_defs)
  then show ?case by (intro exI [of _ ps'] exI [of _ "[x]"] exI) simp
next
  case (Suc k)
  let ?t1 = "t\<lparr>pendin := - int (Suc k)\<rparr>"
  have "pendin t + 1 = - int (Suc k)" using Suc.prems(2) by simp
  then obtain a b where g: "get_token X t = ((DEDENT, a, b), ?t1)"
    using ded Suc.prems by fastforce
  have e: "end_of_input DEDENT st ?t1 = (DEDENT, 1, ?t1)"
    by (simp add: end_of_input_def token_defs)
  from loop_accept [OF g _ e, of ps log err] ok
  obtain ps1 x where 1: "parsetok_loop (recording X) t (ps, log) st err =
      parsetok_loop (recording X) ?t1 (ps1, log @ [x]) 1 (err\<lparr>error := E_OK\<rparr>)"
    "fst x = DEDENT"
    by (auto simp: token_defs)
  have "E ?t1" using keep Suc.prems(1) by blast
  from Suc.IH [OF this, of ps1 "log @ [x]" 1 "err\<lparr>error := E_OK\<rparr>"]
  obtain ps' es err' where 2:
    "parsetok_loop (recording X) ?t1 (ps1, log @ [x]) 1 (err\<lparr>error := E_OK\<rparr>) =
       parsetok_loop (recording X) (t\<lparr>pendin := 0\<rparr>) (ps', (log @ [x]) @ es) 1 err'"
    "map fst es = replicate (Suc k) DEDENT"
    by auto
  show ?case
    using 1 2 by (intro exI [of _ ps'] exI [of _ "x # es"] exI [of _ err']) simp
qed

text \<open>
  Claim C5, as amended. When the Token Source hands over the end-marker while the flag
  \<^verbatim>\<open>started\<close> is set, and reports \<open>N\<close> open indentation levels, the turn of the loop
  feeds the Grammar Engine one NEWLINE token in the place of the end-marker and resets
  the flag; when \<open>N\<close> is not 0 it sets the pending adjustment to \<open>- N\<close> and the indent
  depth to 0, and when \<open>N\<close> is 0 it leaves the tokenizer as it is. The dedent tokens
  are served by the Token Source, and each of them sets the flag again: with a Token
  Source that, at the end of its input (\<open>E\<close>), serves the pending dedents and then
  the end-marker, and a Grammar Engine that accepts NEWLINE and DEDENT and stops at the
  end-marker, the loop returns, and the engine is fed NEWLINE, \<open>N\<close> times DEDENT, a
  second NEWLINE and the end-marker when \<open>N\<close> is not 0, and NEWLINE and the end-marker
  when \<open>N\<close> is 0.
\<close>

theorem dedent_synthesis:
  assumes g: "get_token X t = ((ENDMARKER, a, b), t1)" and st: "started \<noteq> 0"
    and n: "indent t1 = int N"
  shows "parsetok_turn X t ps started err =
           after_add_token NEWLINE 0
             (if N = 0 then t1 else t1\<lparr>pendin := - int N, indent := 0\<rparr>) err
             (add_token X ps NEWLINE (token_str (buf t1) a b) (tok_lineno t1)
                (col_offset a (line_start t1)) (expected err)) \<and>
         ((\<forall>t. E t \<and> pendin t < 0 \<longrightarrow>
              (\<exists>a b. get_token X t = ((DEDENT, a, b), t\<lparr>pendin := pendin t + 1\<rparr>))) \<and>
          (\<forall>t. E t \<and> pendin t = 0 \<longrightarrow>
              (\<exists>a b t'. get_token X t = ((ENDMARKER, a, b), t') \<and> E t' \<and>
                 pendin t' = 0 \<and> indent t' = indent t)) \<and>
          (\<forall>t p i. E t \<longrightarrow> E (t\<lparr>pendin := p\<rparr>) \<and> E (t\<lparr>indent := i\<rparr>)) \<and>
          (\<forall>ps s l c e. fst (add_token X ps NEWLINE s l c e) = E_OK) \<and>
          (\<forall>ps s l c e. fst (add_token X ps DEDENT s l c e) = E_OK) \<and>
          (\<forall>ps s l c e. fst (add_token X ps ENDMARKER s l c e) \<noteq> E_OK) \<and>
          E t1 \<and> pendin t1 = 0 \<longrightarrow>
          (\<exists>t' ps' es err'.
             parsetok_loop (recording X) t (ps, log) started err =
               Some (t', (ps', log @ es), err') \<and>
             map fst es =
               NEWLINE # (if N = 0 then [] else replicate N DEDENT @ [NEWLINE]) @
                 [ENDMARKER]))"
proof (intro conjI impI)
  let ?t2 = "if N = 0 then t1 else t1\<lparr>pendin := - int N, indent := 0\<rparr>"
  have e1: "end_of_input ENDMARKER started t1 = (NEWLINE, 0, ?t2)"
    using st n by (simp add: end_of_input_def)
  have ne: "ENDMARKER \<noteq> ERRORTOKEN" by (simp add: token_defs)
  show "parsetok_turn X t ps started err =
           after_add_token NEWLINE 0 ?t2 err
             (add_token X ps NEWLINE (token_str (buf t1) a b) (tok_lineno t1)
                (col_offset a (line_start t1)) (expected err))"
  proof (cases "N = 0")
    case True
    then show ?thesis using g e1 ne by (simp add: parsetok_turn_def)
  next
    case False
    then show ?thesis using g e1 ne by (simp add: parsetok_turn_def)
  qed
  assume h: "(\<forall>t. E t \<and> pendin t < 0 \<longrightarrow>
              (\<exists>a b. get_token X t = ((DEDENT, a, b), t\<lparr>pendin := pendin t + 1\<rparr>))) \<and>
          (\<forall>t. E t \<and> pendin t = 0 \<longrightarrow>
              (\<exists>a b t'. get_token X t = ((ENDMARKER, a, b), t') \<and> E t' \<and>
                 pendin t' = 0 \<and> indent t' = indent t)) \<and>
          (\<forall>t p i. E t \<longrightarrow> E (t\<lparr>pendin := p\<rparr>) \<and> E (t\<lparr>indent := i\<rparr>)) \<and>
          (\<forall>ps s l c e. fst (add_token X ps NEWLINE s l c e) = E_OK) \<and>
          (\<forall>ps s l c e. fst (add_token X ps DEDENT s l c e) = E_OK) \<and>
          (\<forall>ps s l c e. fst (add_token X ps ENDMARKER s l c e) \<noteq> E_OK) \<and>
          E t1 \<and> pendin t1 = 0"
  then have ded: "\<forall>t. E t \<and> pendin t < 0 \<longrightarrow>
              (\<exists>a b. get_token X t = ((DEDENT, a, b), t\<lparr>pendin := pendin t + 1\<rparr>))"
    and endm: "\<And>t. E t \<Longrightarrow> pendin t = 0 \<Longrightarrow>
              \<exists>a b t'. get_token X t = ((ENDMARKER, a, b), t') \<and> E t' \<and>
                 pendin t' = 0 \<and> indent t' = indent t"
    and keep_p: "\<forall>t p. E t \<longrightarrow> E (t\<lparr>pendin := p\<rparr>)"
    and keep_i: "\<And>t i. E t \<Longrightarrow> E (t\<lparr>indent := i\<rparr>)"
    and ok_nl: "\<And>ps. \<forall>s l c e. fst (add_token X ps NEWLINE s l c e) = E_OK"
    and ok_ded: "\<forall>ps s l c e. fst (add_token X ps DEDENT s l c e) = E_OK"
    and stop: "\<And>ps. \<forall>s l c e. fst (add_token X ps ENDMARKER s l c e) \<noteq> E_OK"
    and E1: "E t1" and p1: "pendin t1 = 0"
    by blast+
  \<comment> \<open>the end-marker fed as it is: the last turn\<close>
  have last: "\<exists>t' ps' x err'. parsetok_loop (recording X) u (q, l) 0 er =
                  Some (t', (ps', l @ [x]), err') \<and> fst x = ENDMARKER"
    if "E u" "pendin u = 0" for u q l er
  proof -
    from endm [OF that] obtain a' b' u' where
      gu: "get_token X u = ((ENDMARKER, a', b'), u')" by blast
    have eu: "end_of_input ENDMARKER 0 u' = (ENDMARKER, 1, u')"
      by (simp add: end_of_input_def)
    from loop_break [OF gu ne eu stop, of q l er] show ?thesis by blast
  qed
  from loop_accept [OF g ne e1 ok_nl, of ps log err]
  obtain ps1 x1 where s1: "parsetok_loop (recording X) t (ps, log) started err =
      parsetok_loop (recording X) ?t2 (ps1, log @ [x1]) 0 (err\<lparr>error := E_OK\<rparr>)"
    and x1: "fst x1 = NEWLINE" by blast
  show "\<exists>t' ps' es err'.
             parsetok_loop (recording X) t (ps, log) started err =
               Some (t', (ps', log @ es), err') \<and>
             map fst es =
               NEWLINE # (if N = 0 then [] else replicate N DEDENT @ [NEWLINE]) @
                 [ENDMARKER]"
  proof (cases N)
    case 0
    from last [OF E1 p1, of ps1 "log @ [x1]" "err\<lparr>error := E_OK\<rparr>"]
    obtain t' ps' x2 err' where
      "parsetok_loop (recording X) t1 (ps1, log @ [x1]) 0 (err\<lparr>error := E_OK\<rparr>) =
         Some (t', (ps', (log @ [x1]) @ [x2]), err')" and "fst x2 = ENDMARKER"
      by blast
    with s1 x1 0 show ?thesis
      by (intro exI [of _ t'] exI [of _ ps'] exI [of _ "[x1, x2]"] exI [of _ err']) simp
  next
    case (Suc k)
    let ?u = "t1\<lparr>pendin := - int N, indent := 0\<rparr>"
    have Eu: "E ?u" using E1 keep_p keep_i by blast
    have pu: "pendin ?u = - int (Suc k)" using Suc by simp
    from dedent_phase [OF ded keep_p ok_ded Eu pu, of ps1 "log @ [x1]" 0 "err\<lparr>error := E_OK\<rparr>"]
    obtain ps2 es err2 where s2:
      "parsetok_loop (recording X) ?u (ps1, log @ [x1]) 0 (err\<lparr>error := E_OK\<rparr>) =
         parsetok_loop (recording X) (?u\<lparr>pendin := 0\<rparr>) (ps2, (log @ [x1]) @ es) 1 err2"
      and es: "map fst es = replicate (Suc k) DEDENT"
      by blast
    let ?v = "?u\<lparr>pendin := 0\<rparr>"
    have Ev: "E ?v" using Eu keep_p by blast
    from endm [OF Ev] obtain a3 b3 v' where
      gv: "get_token X ?v = ((ENDMARKER, a3, b3), v')" and Ev': "E v'"
      and pv': "pendin v' = 0" and iv': "indent v' = 0"
      by auto
    have ev: "end_of_input ENDMARKER 1 v' = (NEWLINE, 0, v')"
      using iv' by (simp add: end_of_input_def)
    from loop_accept [OF gv ne ev ok_nl, of ps2 "(log @ [x1]) @ es" err2]
    obtain ps3 x3 where s3:
      "parsetok_loop (recording X) ?v (ps2, (log @ [x1]) @ es) 1 err2 =
         parsetok_loop (recording X) v' (ps3, ((log @ [x1]) @ es) @ [x3]) 0
           (err2\<lparr>error := E_OK\<rparr>)"
      and x3: "fst x3 = NEWLINE" by blast
    from last [OF Ev' pv', of ps3 "((log @ [x1]) @ es) @ [x3]" "err2\<lparr>error := E_OK\<rparr>"]
    obtain t' ps' x4 err' where s4:
      "parsetok_loop (recording X) v' (ps3, ((log @ [x1]) @ es) @ [x3]) 0
           (err2\<lparr>error := E_OK\<rparr>) =
         Some (t', (ps', (((log @ [x1]) @ es) @ [x3]) @ [x4]), err')"
      and x4: "fst x4 = ENDMARKER" by blast
    have "parsetok_loop (recording X) t (ps, log) started err =
            Some (t', (ps', log @ (x1 # es @ [x3, x4])), err')"
      using s1 s2 s3 s4 Suc by simp
    moreover have "map fst (x1 # es @ [x3, x4]) =
        NEWLINE # (if N = 0 then [] else replicate N DEDENT @ [NEWLINE]) @ [ENDMARKER]"
      using x1 es x3 x4 Suc by simp
    ultimately show ?thesis
      by (intro exI [of _ t'] exI [of _ ps'] exI [of _ "x1 # es @ [x3, x4]"]
          exI [of _ err'] conjI)
  qed
qed

theorem dedent_synthesis_witness:
  "parsetok_turn demo (demo_tok ''ab'' 2 []) [] 1 (new_ErrorDetail None) =
     Continue ((demo_tok ''ab'' 2 [])\<lparr>done' := E_EOF, pendin := - 2, indent := 0\<rparr>)
       [(NEWLINE, [CHR 0x00], 1, 0)] 0 (new_ErrorDetail None) \<and>
   (\<exists>t' ps' es err'.
      parsetok_loop (recording demo) (demo_tok ''ab'' 2 []) ([], []) 1
         (new_ErrorDetail None) = Some (t', (ps', es), err') \<and>
      map fst es = [NEWLINE, DEDENT, DEDENT, NEWLINE, ENDMARKER])"
proof -
  have g: "get_token demo (demo_tok ''ab'' 2 []) =
             ((ENDMARKER, 0, 0), (demo_tok ''ab'' 2 [])\<lparr>done' := E_EOF\<rparr>)"
    by (simp add: demo_def demo_tok_def demo_get_token_def)
  have i: "indent ((demo_tok ''ab'' 2 [])\<lparr>done' := E_EOF\<rparr>) = int 2"
    by (simp add: demo_tok_def)
  have st: "(1::int) \<noteq> 0" by simp
  note th = dedent_synthesis [OF g st i, of "[]" "new_ErrorDetail None"
      "\<lambda>t. tok.more t = []" "[]"]
  have contract:
    "(\<forall>t. tok.more t = [] \<and> pendin t < 0 \<longrightarrow>
        (\<exists>a b. get_token demo t = ((DEDENT, a, b), t\<lparr>pendin := pendin t + 1\<rparr>))) \<and>
     (\<forall>t. tok.more t = [] \<and> pendin t = 0 \<longrightarrow>
        (\<exists>a b t'. get_token demo t = ((ENDMARKER, a, b), t') \<and> tok.more t' = [] \<and>
           pendin t' = 0 \<and> indent t' = indent t)) \<and>
     (\<forall>t p i. tok.more t = [] \<longrightarrow>
        tok.more (t\<lparr>pendin := p\<rparr>) = [] \<and> tok.more (t\<lparr>indent := i\<rparr>) = []) \<and>
     (\<forall>ps s l c e. fst (add_token demo ps NEWLINE s l c e) = E_OK) \<and>
     (\<forall>ps s l c e. fst (add_token demo ps DEDENT s l c e) = E_OK) \<and>
     (\<forall>ps s l c e. fst (add_token demo ps ENDMARKER s l c e) \<noteq> E_OK) \<and>
     tok.more ((demo_tok ''ab'' 2 [])\<lparr>done' := E_EOF\<rparr>) = [] \<and>
     pendin ((demo_tok ''ab'' 2 [])\<lparr>done' := E_EOF\<rparr>) = 0"
    by (simp add: demo_def demo_tok_def demo_get_token_def demo_add_token_def token_defs)
  have "parsetok_turn demo (demo_tok ''ab'' 2 []) [] 1 (new_ErrorDetail None) =
     Continue ((demo_tok ''ab'' 2 [])\<lparr>done' := E_EOF, pendin := - 2, indent := 0\<rparr>)
       [(NEWLINE, [CHR 0x00], 1, 0)] 0 (new_ErrorDetail None)"
    using th [THEN conjunct1]
    by (simp add: after_add_token_def demo_def demo_tok_def demo_add_token_def
        token_defs token_str_def col_offset_def new_ErrorDetail_def)
  moreover have "\<exists>t' ps' es err'.
      parsetok_loop (recording demo) (demo_tok ''ab'' 2 []) ([], []) 1
         (new_ErrorDetail None) = Some (t', (ps', es), err') \<and>
      map fst es = [NEWLINE, DEDENT, DEDENT, NEWLINE, ENDMARKER]"
    using th [THEN conjunct2, rule_format, OF contract]
    by (simp add: numeral_2_eq_2)
  ultimately show ?thesis by blast
qed

text \<open>
  The claim C5 as the spec states it fails. With two indentation levels open, the
  engine is fed NEWLINE, two DEDENTs and a second NEWLINE before the end-marker: not
  exactly one NEWLINE. And with no level open, the pending adjustment is not set to
  minus the indent depth: it stays as it was.
\<close>

theorem second_newline:
  "map_option (map fst \<circ> fst \<circ> snd)
     (parsetok_loop demo (demo_tok ''ab'' 2 [(1, 0, 1)]) [] 0 (new_ErrorDetail None)) =
     Some [1, NEWLINE, DEDENT, DEDENT, NEWLINE, ENDMARKER] \<and>
   pendin (snd (snd (end_of_input ENDMARKER 1 ((demo_tok ''ab'' 0 [])\<lparr>pendin := 3\<rparr>)))) = 3"
  by (simp add: parsetok_loop.simps demo_def demo_tok_def demo_get_token_def
      demo_add_token_def parsetok_turn_def end_of_input_def after_add_token_def token_defs)

subsection \<open>The scan after a single statement\<close>

lemma is_blank_Some [simp]: "is_blank (Some c) = blank c"
  by (simp add: is_blank_def blank_def)

lemma is_blank_None [simp]: "\<not> is_blank None"
  by (simp add: is_blank_def)

lemma buf_at_drop:
  assumes "0 \<le> i"
  shows "buf_at b i = (case drop (nat i) b of [] \<Rightarrow> None | c # cs \<Rightarrow> Some c)"
proof (cases "nat i < length b")
  case True
  then have "drop (nat i) b = b ! nat i # drop (Suc (nat i)) b"
    by (simp add: Cons_nth_drop_Suc)
  moreover have "i < int (length b)" using True assms by linarith
  ultimately show ?thesis using assms by (simp add: buf_at_def)
next
  case False
  then have "drop (nat i) b = []" by simp
  moreover have "\<not> i < int (length b)" using False assms by linarith
  ultimately show ?thesis by (simp add: buf_at_def)
qed

lemma drop_step:
  assumes "0 \<le> i" "drop (nat i) b = c # cs"
  shows "drop (nat (i + 1)) b = cs"
proof -
  have "nat (i + 1) = Suc (nat i)" using assms(1) by linarith
  then have "drop (nat (i + 1)) b = tl (drop (nat i) b)" by (simp add: drop_Suc tl_drop)
  with assms(2) show ?thesis by simp
qed


lemma skip_blanks_drop:
  "0 \<le> i \<Longrightarrow> 0 \<le> skip_blanks b i \<and>
     drop (nat (skip_blanks b i)) b = dropWhile blank (drop (nat i) b)"
proof (induction b i rule: skip_blanks.induct)
  case (1 b i)
  show ?case
  proof (cases "is_blank (buf_at b i)")
    case True
    then obtain c cs where d: "drop (nat i) b = c # cs" and c: "blank c"
      using 1(2) by (auto simp: buf_at_drop split: list.splits)
    have eq: "skip_blanks b i = skip_blanks b (i + 1)"
      using True by (subst skip_blanks.simps) simp
    have next_drop: "drop (nat (i + 1)) b = cs" using 1(2) d by (rule drop_step)
    have "0 \<le> skip_blanks b (i + 1) \<and>
          drop (nat (skip_blanks b (i + 1))) b = dropWhile blank (drop (nat (i + 1)) b)"
      using True 1(2) by (intro 1(1)) auto
    then show ?thesis unfolding eq next_drop d using c by simp
  next
    case False
    have eq: "skip_blanks b i = i"
      using False by (subst skip_blanks.simps) simp
    have "dropWhile blank (drop (nat i) b) = drop (nat i) b"
      using False 1(2) by (cases "drop (nat i) b") (auto simp: buf_at_drop)
    then show ?thesis unfolding eq using 1(2) by simp
  qed
qed

lemma skip_comment_drop:
  "0 \<le> i \<Longrightarrow> 0 \<le> skip_comment b i \<and>
     drop (nat (skip_comment b i)) b = dropWhile (\<lambda>x. x \<noteq> CHR 0x0A) (drop (nat i) b)"
proof (induction b i rule: skip_comment.induct)
  case (1 b i)
  show ?case
  proof (cases "buf_at b i \<noteq> None \<and> buf_at b i \<noteq> Some CHR 0x0A")
    case True
    then obtain c cs where d: "drop (nat i) b = c # cs" and c: "c \<noteq> CHR 0x0A"
      using 1(2) by (auto simp: buf_at_drop split: list.splits)
    have eq: "skip_comment b i = skip_comment b (i + 1)"
      using True by (subst skip_comment.simps) auto
    have next_drop: "drop (nat (i + 1)) b = cs" using 1(2) d by (rule drop_step)
    have "0 \<le> skip_comment b (i + 1) \<and>
          drop (nat (skip_comment b (i + 1))) b =
            dropWhile (\<lambda>x. x \<noteq> CHR 0x0A) (drop (nat (i + 1)) b)"
      using True 1(2) by (intro 1(1)) auto
    then show ?thesis unfolding eq next_drop d using c by simp
  next
    case False
    have eq: "skip_comment b i = i"
      using False by (subst skip_comment.simps) auto
    have "dropWhile (\<lambda>x. x \<noteq> CHR 0x0A) (drop (nat i) b) = drop (nat i) b"
      using False 1(2) by (cases "drop (nat i) b") (auto simp: buf_at_drop)
    then show ?thesis unfolding eq using 1(2) by simp
  qed
qed

lemma blanks_and_comments_dropWhile:
  "blanks_and_comments (dropWhile blank xs) = blanks_and_comments xs"
  by (induction xs) simp_all

lemma dropWhile_blank_head: "dropWhile blank xs = c # cs \<Longrightarrow> \<not> blank c"
  using hd_dropWhile [of blank xs] by auto

lemma single_scan_spec:
  "0 \<le> i \<Longrightarrow> fst (single_scan b i) = (\<not> blanks_and_comments (drop (nat i) b))"
proof (induction b i rule: single_scan.induct)
  case (1 b i)
  let ?j = "skip_blanks b i"
  have j: "0 \<le> ?j" "drop (nat ?j) b = dropWhile blank (drop (nat i) b)"
    using skip_blanks_drop [OF 1(2)] by simp_all
  have bc: "blanks_and_comments (drop (nat i) b) = blanks_and_comments (drop (nat ?j) b)"
    by (simp add: j(2) blanks_and_comments_dropWhile)
  show ?case
  proof (cases "drop (nat ?j) b")
    case Nil
    then have at: "buf_at b ?j = None" using j(1) by (simp add: buf_at_drop)
    have "single_scan b i = (False, ?j)"
      using at by (subst single_scan.simps) (simp add: Let_def)
    then show ?thesis using bc Nil by simp
  next
    case (Cons c cs)
    then have nb: "\<not> blank c" using j(2) dropWhile_blank_head by metis
    have at: "buf_at b ?j = Some c" using Cons j(1) by (simp add: buf_at_drop)
    show ?thesis
    proof (cases "c = CHR ''#''")
      case False
      have "single_scan b i = (True, ?j)"
        using at False by (subst single_scan.simps) (simp add: Let_def)
      then show ?thesis using bc Cons nb False by simp
    next
      case True
      let ?k = "skip_comment b ?j"
      have k: "0 \<le> ?k"
        "drop (nat ?k) b = dropWhile (\<lambda>x. x \<noteq> CHR 0x0A) (drop (nat ?j) b)"
        using skip_comment_drop [OF j(1)] by simp_all
      have ih: "fst (single_scan b ?k) = (\<not> blanks_and_comments (drop (nat ?k) b))"
        using at True k(1) by (intro 1(1)) auto
      have eq: "single_scan b i = single_scan b ?k"
        using at True by (subst single_scan.simps) (simp add: Let_def)
      have "blanks_and_comments (drop (nat ?j) b) =
              blanks_and_comments (dropWhile (\<lambda>x. x \<noteq> CHR 0x0A) cs)"
        using Cons True nb by simp
      moreover have "drop (nat ?k) b = dropWhile (\<lambda>x. x \<noteq> CHR 0x0A) cs"
        using k(2) Cons True by simp
      ultimately show ?thesis using ih bc unfolding eq by simp
    qed
  qed
qed

lemma parsetok_done_single:
  assumes "error err = E_DONE" and "0 \<le> cur t"
  shows "parsetok_done X single_input t ps err =
           (if blanks_and_comments (drop (nat (cur t)) (buf t))
            then (p_tree X ps, t\<lparr>cur := snd (single_scan (buf t) (cur t))\<rparr>, err)
            else (None, t\<lparr>cur := snd (single_scan (buf t) (cur t))\<rparr>,
                  err\<lparr>error := E_BADSINGLE\<rparr>))"
  using assms single_scan_spec [OF assms(2), of "buf t"]
  by (cases "single_scan (buf t) (cur t)") (auto simp: parsetok_done_def)

lemma parsetok_finish_None:
  "parsetok_finish None t err =
     (None, t, err\<lparr>error := (if done' t = E_EOF then E_EOF else error err),
        lineno := tok_lineno t, offset := cur t,
        text' := Some (if inp t > 0 then js_join [] (js_slice (buf t) 0 (inp t)) else [])\<rparr>)"
  by (simp add: parsetok_finish_def Let_def)

lemma parsetok_finish_Some:
  "parsetok_finish (Some tree) t err =
     (case encoding t of
        None \<Rightarrow> (Some tree, t, err)
      | Some enc \<Rightarrow> (Some (Node_encoding_decl enc 1 tree), t\<lparr>encoding := None\<rparr>, err))"
  by (simp add: parsetok_finish_def)

text \<open>
  Claim C6. In single-statement mode, when the loop ended with the Grammar Engine done
  and a tree built: if what is left in the buffer from the cursor on is made of blanks
  and comments only, \<^verbatim>\<open>parsetok\<close> returns the tree (wrapped in the encoding node when
  the tokenizer has an encoding) and the error detail as it was; otherwise the check
  sets the error kind to \<open>E_BADSINGLE\<close> and drops the tree, and \<^verbatim>\<open>parsetok\<close> returns
  no tree.
\<close>

theorem single_statement_check:
  assumes "parsetok_loop X t0 (Parser X g single_input) 0 err0 = Some (t, ps, err)"
    and "error err = E_DONE" and "p_tree X ps = Some tree" and "0 \<le> cur t"
  shows "(blanks_and_comments (drop (nat (cur t)) (buf t)) \<longrightarrow>
            (\<exists>n t'. parsetok X t0 g single_input err0 flags = Some (Some n, t', err) \<and>
               (n = tree \<or> (\<exists>enc. n = Node_encoding_decl enc 1 tree)))) \<and>
         (\<not> blanks_and_comments (drop (nat (cur t)) (buf t)) \<longrightarrow>
            fst (parsetok_done X single_input t ps err) = None \<and>
            error (snd (snd (parsetok_done X single_input t ps err))) = E_BADSINGLE \<and>
            (\<exists>t' err'. parsetok X t0 g single_input err0 flags = Some (None, t', err')))"
proof (intro conjI impI)
  assume ok: "blanks_and_comments (drop (nat (cur t)) (buf t))"
  let ?t = "t\<lparr>cur := snd (single_scan (buf t) (cur t))\<rparr>"
  have d: "parsetok_done X single_input t ps err = (Some tree, ?t, err)"
    using parsetok_done_single [OF assms(2,4), of X ps] ok assms(3) by simp
  show "\<exists>n t'. parsetok X t0 g single_input err0 flags = Some (Some n, t', err) \<and>
               (n = tree \<or> (\<exists>enc. n = Node_encoding_decl enc 1 tree))"
  proof (cases "encoding ?t")
    case None
    then have "parsetok X t0 g single_input err0 flags = Some (Some tree, ?t, err)"
      using assms(1) d by (simp add: parsetok_def parsetok_finish_Some)
    then show ?thesis by blast
  next
    case (Some enc)
    then have "parsetok X t0 g single_input err0 flags =
        Some (Some (Node_encoding_decl enc 1 tree), ?t\<lparr>encoding := None\<rparr>, err)"
      using assms(1) d by (simp add: parsetok_def parsetok_finish_Some)
    then show ?thesis by blast
  qed
next
  assume bad: "\<not> blanks_and_comments (drop (nat (cur t)) (buf t))"
  let ?t = "t\<lparr>cur := snd (single_scan (buf t) (cur t))\<rparr>"
  have d: "parsetok_done X single_input t ps err = (None, ?t, err\<lparr>error := E_BADSINGLE\<rparr>)"
    using parsetok_done_single [OF assms(2,4), of X ps] bad by simp
  show "fst (parsetok_done X single_input t ps err) = None" using d by simp
  show "error (snd (snd (parsetok_done X single_input t ps err))) = E_BADSINGLE"
    using d by simp
  show "\<exists>t' err'. parsetok X t0 g single_input err0 flags = Some (None, t', err')"
    using assms(1) d by (simp add: parsetok_def parsetok_finish_None)
qed

lemmas demo_defs = demo_def demo_tok_def demo_get_token_def demo_add_token_def
  parsetok_turn_def end_of_input_def after_add_token_def token_str_def col_offset_def
  js_slice_def new_ErrorDetail_def token_defs

lemma demo_loop_comment:
  "parsetok_loop demo (demo_tok ''a # c'' 0 [(1, 0, 1)]) (Parser demo () single_input) 0
       (new_ErrorDetail None) =
     Some ((demo_tok ''a # c'' 0 [])\<lparr>cur := 1, done' := E_EOF\<rparr>,
           [(1, ''a'' @ [CHR 0x00], 1, 0), (4, [CHR 0x00], 1, 1), (0, [CHR 0x00], 1, 1)],
           (new_ErrorDetail None)\<lparr>error := E_DONE\<rparr>)"
  by (simp add: parsetok_loop.simps demo_defs)

lemma demo_loop_two:
  "parsetok_loop demo (demo_tok ''a b'' 0 [(1, 0, 1)]) (Parser demo () single_input) 0
       (new_ErrorDetail None) =
     Some ((demo_tok ''a b'' 0 [])\<lparr>cur := 1, done' := E_EOF\<rparr>,
           [(1, ''a'' @ [CHR 0x00], 1, 0), (4, [CHR 0x00], 1, 1), (0, [CHR 0x00], 1, 1)],
           (new_ErrorDetail None)\<lparr>error := E_DONE\<rparr>)"
  by (simp add: parsetok_loop.simps demo_defs)

theorem single_statement_check_witness:
  "(\<exists>n t'. parsetok demo (demo_tok ''a # c'' 0 [(1, 0, 1)]) () single_input
              (new_ErrorDetail None) 0 =
            Some (Some n, t', (new_ErrorDetail None)\<lparr>error := E_DONE\<rparr>)) \<and>
   (\<exists>t' err'. parsetok demo (demo_tok ''a b'' 0 [(1, 0, 1)]) () single_input
              (new_ErrorDetail None) 0 = Some (None, t', err'))"
proof -
  have c: "blanks_and_comments (drop (nat 1) ''a # c'')"
    by (simp add: blank_def)
  have b: "\<not> blanks_and_comments (drop (nat 1) ''a b'')"
    by (simp add: blank_def)
  show ?thesis
    using single_statement_check [OF demo_loop_comment, of _ 0] c
      single_statement_check [OF demo_loop_two, of _ 0] b
    by (simp add: demo_def demo_tok_def new_ErrorDetail_def) blast
qed

text \<open>
  Claim C7, as amended. The error kind of a new \<^verbatim>\<open>ErrorDetail\<close> is \<open>E_OK\<close>. After the
  loop, the kind is the one the loop had set, or \<open>E_BADSINGLE\<close> set in the place of
  \<open>E_DONE\<close> by the check of a single statement. When \<^verbatim>\<open>parsetok\<close> then ends without a
  tree, it fills in the line number, the offset and the text, and keeps that kind,
  unless the Token Source's own code is \<open>E_EOF\<close>: then the kind becomes \<open>E_EOF\<close>,
  whatever it was.
\<close>

theorem error_kind_at_the_end:
  assumes "parsetok_loop X t0 (Parser X g start) 0 err0 = Some (t, ps, err)"
    and "parsetok_done X start t ps err = (None, t2, err2)"
  shows "error (new_ErrorDetail fn) = E_OK \<and>
         (error err2 = error err \<or>
          (error err = E_DONE \<and> start = single_input \<and> error err2 = E_BADSINGLE)) \<and>
         done' t2 = done' t \<and>
         parsetok X t0 g start err0 flags =
           Some (None, t2,
             err2\<lparr>error := (if done' t2 = E_EOF then E_EOF else error err2),
                 lineno := tok_lineno t2, offset := cur t2,
                 text' := Some (if inp t2 > 0 then js_join [] (js_slice (buf t2) 0 (inp t2))
                                else [])\<rparr>)"
proof (intro conjI)
  show "error (new_ErrorDetail fn) = E_OK" by (simp add: new_ErrorDetail_def)
  show "error err2 = error err \<or>
          (error err = E_DONE \<and> start = single_input \<and> error err2 = E_BADSINGLE)"
    using assms(2)
    by (auto simp: parsetok_done_def Let_def split: if_splits prod.splits)
  show "done' t2 = done' t"
    using assms(2)
    by (auto simp: parsetok_done_def Let_def split: if_splits prod.splits)
  show "parsetok X t0 g start err0 flags =
           Some (None, t2,
             err2\<lparr>error := (if done' t2 = E_EOF then E_EOF else error err2),
                 lineno := tok_lineno t2, offset := cur t2,
                 text' := Some (if inp t2 > 0 then js_join [] (js_slice (buf t2) 0 (inp t2))
                                else [])\<rparr>)"
    using assms by (simp add: parsetok_def parsetok_finish_None)
qed

lemma demo_loop_syntax:
  "parsetok_loop demo ((demo_tok ''(('' 0 [(99, 0, 1)])\<lparr>done' := E_EOF\<rparr>)
       (Parser demo () file_input) 0 (new_ErrorDetail None) =
     Some ((demo_tok ''(('' 0 [])\<lparr>cur := 1, done' := E_EOF\<rparr>,
           [(99, ''('' @ [CHR 0x00], 1, 0)],
           (new_ErrorDetail None)\<lparr>error := E_SYNTAX, token := 99\<rparr>)"
  by (simp add: parsetok_loop.simps demo_defs)

lemma demo_loop_kept:
  "parsetok_loop demo (demo_tok ''(('' 0 [(99, 0, 1)])
       (Parser demo () file_input) 0 (new_ErrorDetail None) =
     Some ((demo_tok ''(('' 0 [])\<lparr>cur := 1\<rparr>,
           [(99, ''('' @ [CHR 0x00], 1, 0)],
           (new_ErrorDetail None)\<lparr>error := E_SYNTAX, token := 99\<rparr>)"
  by (simp add: parsetok_loop.simps demo_defs)

theorem error_kind_at_the_end_witness:
  "parsetok demo (demo_tok ''(('' 0 [(99, 0, 1)]) () file_input (new_ErrorDetail None) 0 =
     Some (None, (demo_tok ''(('' 0 [])\<lparr>cur := 1\<rparr>,
           (new_ErrorDetail None)\<lparr>error := E_SYNTAX, token := 99, lineno := 1, offset := 1,
              text' := Some ''((''\<rparr>) \<and>
   map_option (error \<circ> snd \<circ> snd)
     (parsetok demo (demo_tok ''a b'' 0 [(1, 0, 1)]) () single_input
        (new_ErrorDetail None) 0) = Some E_EOF"
proof (intro conjI)
  let ?t = "(demo_tok ''(('' 0 [])\<lparr>cur := 1\<rparr>"
  let ?e = "(new_ErrorDetail None)\<lparr>error := E_SYNTAX, token := 99\<rparr>"
  have d: "parsetok_done demo file_input ?t [(99, ''('' @ [CHR 0x00], 1, 0)] ?e =
             (None, ?t, ?e)"
    by (simp add: parsetok_done_def new_ErrorDetail_def)
  from error_kind_at_the_end [OF demo_loop_kept d, of None 0]
  show "parsetok demo (demo_tok ''(('' 0 [(99, 0, 1)]) () file_input
          (new_ErrorDetail None) 0 =
     Some (None, ?t, ?e\<lparr>lineno := 1, offset := 1, text' := Some ''((''\<rparr>)"
    by (simp add: demo_def demo_tok_def new_ErrorDetail_def js_slice_def)
  let ?u = "(demo_tok ''a b'' 0 [])\<lparr>cur := 1, done' := E_EOF\<rparr>"
  let ?f = "(new_ErrorDetail None)\<lparr>error := E_DONE\<rparr>"
  let ?ps = "[(1, ''a'' @ [CHR 0x00], 1, 0), (4, [CHR 0x00], 1, 1), (0, [CHR 0x00], 1, 1)]"
  have b: "\<not> blanks_and_comments (drop (nat (cur ?u)) (buf ?u))"
    by (simp add: blank_def demo_def demo_tok_def)
  have "error ?f = E_DONE" "0 \<le> cur ?u" by (simp_all add: demo_def demo_tok_def)
  from parsetok_done_single [OF this, of demo ?ps] b
  have d2: "parsetok_done demo single_input ?u ?ps ?f =
              (None, ?u\<lparr>cur := snd (single_scan (buf ?u) (cur ?u))\<rparr>,
               ?f\<lparr>error := E_BADSINGLE\<rparr>)"
    by simp
  from error_kind_at_the_end [OF demo_loop_two d2, of None 0]
  show "map_option (error \<circ> snd \<circ> snd)
     (parsetok demo (demo_tok ''a b'' 0 [(1, 0, 1)]) () single_input
        (new_ErrorDetail None) 0) = Some E_EOF"
    by (simp add: demo_def demo_tok_def)
qed

text \<open>
  The claim C7 as the spec states it fails: the Grammar Engine rejects a token, the
  loop sets the kind \<open>E_SYNTAX\<close>, the Token Source is at the end of its input, and
  \<^verbatim>\<open>parsetok\<close> returns the kind \<open>E_EOF\<close>.
\<close>

theorem error_kind_overwritten:
  "map_option (error \<circ> snd \<circ> snd)
     (parsetok_loop demo ((demo_tok ''(('' 0 [(99, 0, 1)])\<lparr>done' := E_EOF\<rparr>)
        (Parser demo () file_input) 0 (new_ErrorDetail None)) = Some E_SYNTAX \<and>
   map_option (error \<circ> snd \<circ> snd)
     (parsetok demo ((demo_tok ''(('' 0 [(99, 0, 1)])\<lparr>done' := E_EOF\<rparr>) () file_input
        (new_ErrorDetail None) 0) = Some E_EOF"
  by (simp add: demo_loop_syntax parsetok_def parsetok_done_def parsetok_finish_None)

section \<open>Properties of the exception chainer\<close>

subsection \<open>Context chains\<close>

lemma context_chain_unique:
  "context_chain h v xs \<Longrightarrow> context_chain h v ys \<Longrightarrow> xs = ys"
proof (induction xs arbitrary: v ys)
  case Nil
  then show ?case by (cases ys) auto
next
  case (Cons c cs)
  then show ?case by (cases ys) auto
qed

lemma context_chain_suffix:
  "context_chain h v cs \<Longrightarrow> x \<in> set cs \<Longrightarrow>
     \<exists>ys. context_chain h x ys \<and> length ys < length cs"
proof (induction cs arbitrary: v)
  case Nil
  then show ?case by simp
next
  case (Cons c cs)
  show ?case
  proof (cases "x = c")
    case True
    with Cons.prems show ?thesis by auto
  next
    case False
    with Cons.prems have "x \<in> set cs" "context_chain h c cs" by auto
    from Cons.IH [OF this(2) this(1)] show ?thesis by auto
  qed
qed

lemma context_chain_notin: "context_chain h v cs \<Longrightarrow> v \<notin> set cs"
proof
  assume c: "context_chain h v cs" and "v \<in> set cs"
  then obtain ys where "context_chain h v ys" "length ys < length cs"
    using context_chain_suffix by blast
  with c context_chain_unique show False by blast
qed

lemma context_chain_distinct: "context_chain h v cs \<Longrightarrow> distinct (v # cs)"
proof (induction cs arbitrary: v)
  case Nil
  then show ?case by simp
next
  case (Cons c cs)
  then have "context_chain h c cs" by simp
  then have "distinct (c # cs)" by (rule Cons.IH)
  moreover have "v \<notin> set (c # cs)" using Cons.prems by (rule context_chain_notin)
  ultimately show ?case by simp
qed

lemma cut_of_GetContext:
  "cut_of h h' \<Longrightarrow> PyException_GetContext h' v = PyException_GetContext h v \<or>
     PyException_GetContext h' v = Null"
  by (cases v) (auto simp: cut_of_def PyException_GetContext_def)

lemma cut_of_chain:
  "cut_of h h' \<Longrightarrow> context_chain h v cs \<Longrightarrow> \<exists>cs'. context_chain h' v cs'"
proof (induction cs arbitrary: v)
  case Nil
  then have "context_chain h' v []"
    using cut_of_GetContext [OF Nil.prems(1), of v] by auto
  then show ?case ..
next
  case (Cons c cs)
  then obtain cs' where cs': "context_chain h' c cs'" by auto
  from cut_of_GetContext [OF Cons.prems(1), of v]
  show ?case
  proof
    assume "PyException_GetContext h' v = PyException_GetContext h v"
    with Cons.prems cs' have "context_chain h' v (c # cs')" by simp
    then show ?thesis ..
  next
    assume "PyException_GetContext h' v = Null"
    then have "context_chain h' v []" by simp
    then show ?thesis ..
  qed
qed

lemma cut_of_acyclic: "cut_of h h' \<Longrightarrow> acyclic_heap h \<Longrightarrow> acyclic_heap h'"
  unfolding acyclic_heap_def using cut_of_chain by blast

lemma cut_of_refl: "cut_of h h"
  by (simp add: cut_of_def)

lemma cut_of_SetContext_Null: "cut_of h (PyException_SetContext h x Null)"
  by (cases x) (auto simp: cut_of_def PyException_SetContext_def)

lemma GetContext_SetContext_other:
  "v \<noteq> x \<or> x \<noteq> v \<Longrightarrow>
     PyException_GetContext (PyException_SetContext h x c) v = PyException_GetContext h v"
  by (cases v; cases x) (auto simp: PyException_GetContext_def PyException_SetContext_def)

lemma GetContext_SetContext_same:
  "PyException_GetContext (PyException_SetContext h (Inst r) c) (Inst r) = c"
  by (simp add: PyException_GetContext_def PyException_SetContext_def)

lemma GetContext_truthy_Inst:
  "js_truthy (PyException_GetContext h v) \<Longrightarrow> \<exists>r. v = Inst r"
  by (cases v) (auto simp: PyException_GetContext_def)

lemma context_chain_SetContext_other:
  "context_chain h v cs \<Longrightarrow> x \<notin> set (v # cs) \<Longrightarrow>
     context_chain (PyException_SetContext h x c) v cs"
proof (induction cs arbitrary: v)
  case Nil
  then show ?case by (simp add: GetContext_SetContext_other)
next
  case (Cons a cs)
  then show ?case by (simp add: GetContext_SetContext_other)
qed

text \<open>The walk ends on a chain, cuts at most one link, and leaves a chain without the value.\<close>

lemma context_walk_chain:
  "context_chain h e cs \<Longrightarrow>
     \<exists>h'. context_walk h v e = Some h' \<and>
          (h' = h \<or> (\<exists>x \<in> set (e # cs). h' = PyException_SetContext h x Null)) \<and>
          context_chain h' e (takeWhile (\<lambda>c. c \<noteq> v) cs)"
proof (induction cs arbitrary: e)
  case Nil
  then show ?case by (subst context_walk.simps) simp
next
  case (Cons c cs)
  then have c: "js_truthy c" "PyException_GetContext h e = c" "context_chain h c cs"
    by auto
  obtain r where e: "e = Inst r" using c(1,2) GetContext_truthy_Inst by blast
  show ?case
  proof (cases "c = v")
    case True
    have "context_walk h v e = Some (PyException_SetContext h e Null)"
      using c True by (subst context_walk.simps) simp
    moreover have "context_chain (PyException_SetContext h e Null) e []"
      using e by (simp add: GetContext_SetContext_same)
    ultimately show ?thesis using True by auto
  next
    case False
    from Cons.IH [OF c(3)] obtain h' where h':
      "context_walk h v c = Some h'"
      "h' = h \<or> (\<exists>x \<in> set (c # cs). h' = PyException_SetContext h x Null)"
      "context_chain h' c (takeWhile (\<lambda>c. c \<noteq> v) cs)" by blast
    have w: "context_walk h v e = Some h'"
      using c False h'(1) by (subst context_walk.simps) simp
    have "e \<notin> set (c # cs)" using Cons.prems by (rule context_chain_notin)
    then have "PyException_GetContext h' e = c"
      using h'(2) c(2) by (auto intro: GetContext_SetContext_other)
    then have "context_chain h' e (takeWhile (\<lambda>c. c \<noteq> v) (c # cs))"
      using False c(1) h'(3) by simp
    with w h'(2) show ?thesis by auto
  qed
qed

text \<open>Linking a record to the head of a chain that does not hold it keeps every chain finite.\<close>

lemma link_chain:
  assumes e: "context_chain h e cs" and r: "Inst r \<notin> set (e # cs)"
    and u: "context_chain h u us"
  shows "\<exists>us'. context_chain (PyException_SetContext h (Inst r) e) u us'"
proof -
  let ?h = "PyException_SetContext h (Inst r) e"
  have e': "context_chain ?h e cs"
    using e r by (rule context_chain_SetContext_other)
  have new: "\<exists>us'. context_chain ?h (Inst r) us'"
  proof (cases "js_truthy e")
    case True
    with e' have "context_chain ?h (Inst r) (e # cs)"
      by (simp add: GetContext_SetContext_same)
    then show ?thesis ..
  next
    case False
    then have "context_chain ?h (Inst r) []"
      by (simp add: GetContext_SetContext_same)
    then show ?thesis ..
  qed
  from u show ?thesis
  proof (induction us arbitrary: u)
    case Nil
    show ?case
    proof (cases "u = Inst r")
      case True
      with new show ?thesis by simp
    next
      case False
      with Nil have "context_chain ?h u []" by (simp add: GetContext_SetContext_other)
      then show ?thesis ..
    qed
  next
    case (Cons c us)
    show ?case
    proof (cases "u = Inst r")
      case True
      with new show ?thesis by simp
    next
      case False
      from Cons obtain us' where "context_chain ?h c us'" by auto
      with Cons.prems False have "context_chain ?h u (c # us')"
        by (simp add: GetContext_SetContext_other)
      then show ?thesis ..
    qed
  qed
qed

subsection \<open>One raise\<close>


lemma heap_restore_value [simp]: "heap (restore_value e s) = heap s"
  by (simp add: restore_value_def PyErr_Restore_def Let_def)

lemma exc_restore_value [simp]:
  "exc_type (restore_value e s) = e" "exc_value (restore_value e s) = value' s"
  "value' (restore_value e s) = value' s" "nextref (restore_value e s) = nextref s"
  by (simp_all add: restore_value_def PyErr_Restore_def Let_def)

lemma normalize_value_Inl:
  "normalize_value e s = Inl s1 \<Longrightarrow> s1 = PyErr_Clear s"
  by (auto simp: normalize_value_def Let_def split: if_splits option.splits)

lemma normalize_value_Inr_cases:
  assumes "normalize_value e s = Inr s1"
  shows "(PyExceptionInstance_Check (value' s) \<and> s1 = s) \<or>
         (\<not> PyExceptionInstance_Check (value' s) \<and>
          (\<exists>k xs. e = Cls k \<and> value' s1 = Inst (nextref s) \<and>
             heap s1 = (heap s)(nextref s :=
                \<lparr>cls = Cls k, args = xs, context' = Null, traceback = Null\<rparr>)))"
  using assms
  by (auto simp: normalize_value_def Let_def PyEval_CallObject_def PyErr_Clear_def
      PyErr_Restore_def PyExceptionInstance_Check_def
      split: if_splits option.splits pyval.splits)

lemma normalize_value_Inr_Inst:
  "normalize_value e s = Inr s1 \<Longrightarrow> \<exists>r. value' s1 = Inst r"
  by (drule normalize_value_Inr_cases)
     (auto simp: PyExceptionInstance_Check_def split: pyval.splits)

lemma normalize_value_Inr_cut:
  "normalize_value e s = Inr s1 \<Longrightarrow> cut_of (heap s) (heap s1)"
  by (drule normalize_value_Inr_cases) (auto simp: cut_of_def)

lemma PyErr_SetObject_acyclic:
  assumes a: "acyclic_heap (heap s)" and e: "e = Null \<or> PyExceptionClass_Check e"
  shows "\<exists>s'. PyErr_SetObject fmt e o' s = Some s' \<and> acyclic_heap (heap s')"
proof (cases "exc_value s \<noteq> Null \<and> exc_value s \<noteq> Py_None")
  case False
  then have "PyErr_SetObject fmt e o' s = Some (restore_value e s)"
    using e by (auto simp: PyErr_SetObject_def)
  with a show ?thesis by simp
next
  case active: True
  show ?thesis
  proof (cases "normalize_value e s")
    case (Inl s1)
    then have "PyErr_SetObject fmt e o' s = Some s1"
      using e active by (auto simp: PyErr_SetObject_def)
    moreover have "heap s1 = heap s"
      using normalize_value_Inl [OF Inl] by (simp add: PyErr_Clear_def PyErr_Restore_def)
    ultimately show ?thesis using a by simp
  next
    case (Inr s1)
    have a1: "acyclic_heap (heap s1)"
      using normalize_value_Inr_cut [OF Inr] a by (rule cut_of_acyclic)
    obtain r where r: "value' s1 = Inst r"
      using normalize_value_Inr_Inst [OF Inr] by blast
    show ?thesis
    proof (cases "exc_value s = value' s1")
      case True
      then have "PyErr_SetObject fmt e o' s = Some (restore_value e s1)"
        using e active Inr by (auto simp: PyErr_SetObject_def)
      with a1 show ?thesis by simp
    next
      case False
      obtain cs where cs: "context_chain (heap s1) (exc_value s) cs"
        using a1 unfolding acyclic_heap_def by blast
      from context_walk_chain [OF cs, of "value' s1"] obtain h' where h':
        "context_walk (heap s1) (value' s1) (exc_value s) = Some h'"
        "h' = heap s1 \<or> (\<exists>x \<in> set (exc_value s # cs). h' = PyException_SetContext (heap s1) x Null)"
        "context_chain h' (exc_value s) (takeWhile (\<lambda>c. c \<noteq> value' s1) cs)"
        by blast
      have "cut_of (heap s1) h'"
        using h'(2) cut_of_refl cut_of_SetContext_Null by auto
      then have ah': "acyclic_heap h'" using a1 by (rule cut_of_acyclic)
      have notin: "Inst r \<notin> set (exc_value s # takeWhile (\<lambda>c. c \<noteq> value' s1) cs)"
        using False r by (auto dest: set_takeWhileD)
      have "acyclic_heap (PyException_SetContext h' (Inst r) (exc_value s))"
        unfolding acyclic_heap_def
      proof
        fix u
        obtain us where "context_chain h' u us" using ah' unfolding acyclic_heap_def by blast
        with h'(3) notin
        show "\<exists>us'. context_chain (PyException_SetContext h' (Inst r) (exc_value s)) u us'"
          by (rule link_chain)
      qed
      moreover have "PyErr_SetObject fmt e o' s =
          Some (restore_value e (s1\<lparr>heap := PyException_SetContext h' (value' s1) (exc_value s)\<rparr>))"
        using e active Inr False h'(1) by (auto simp: PyErr_SetObject_def)
      ultimately show ?thesis using r by simp
    qed
  qed
qed

lemma raises_acyclic:
  "acyclic_heap (heap s) \<Longrightarrow> \<forall>(e, o') \<in> set rs. e = Null \<or> PyExceptionClass_Check e \<Longrightarrow>
     \<exists>s'. raises fmt rs s = Some s' \<and> acyclic_heap (heap s')"
proof (induction rs arbitrary: s)
  case Nil
  then show ?case by simp
next
  case (Cons x rs)
  obtain e o' where x: "x = (e, o')" by (cases x)
  with Cons.prems have "e = Null \<or> PyExceptionClass_Check e" by simp
  from PyErr_SetObject_acyclic [OF Cons.prems(1) this, of fmt o']
  obtain s1 where s1: "PyErr_SetObject fmt e o' s = Some s1" "acyclic_heap (heap s1)" by blast
  from Cons.IH [OF s1(2)] Cons.prems(2) obtain s' where
    "raises fmt rs s1 = Some s'" "acyclic_heap (heap s')" by auto
  with s1 x show ?case by simp
qed

lemma context_walk_cut_of:
  assumes "context_walk h v e = Some h'"
  shows "cut_of h h'"
  by (rule context_walk.raw_induct [rotated, OF assms])
     (auto simp: Let_def cut_of_refl cut_of_SetContext_Null split: if_splits)

lemma cut_of_no_new_self: "cut_of h h' \<Longrightarrow> no_new_self h h'"
  by (auto simp: cut_of_def no_new_self_def) (metis pyval.distinct(13))

lemma link_no_new_self:
  "e \<noteq> Inst r \<Longrightarrow> no_new_self h h' \<Longrightarrow> no_new_self h (PyException_SetContext h' (Inst r) e)"
  by (auto simp: no_new_self_def PyException_SetContext_def)

lemma cut_of_trans: "cut_of h h1 \<Longrightarrow> cut_of h1 h2 \<Longrightarrow> cut_of h h2"
  unfolding cut_of_def by metis

lemma PyErr_SetObject_no_new_self:
  assumes e: "e = Null \<or> PyExceptionClass_Check e"
    and r: "PyErr_SetObject fmt e o' s = Some s'"
  shows "no_new_self (heap s) (heap s')"
proof (cases "exc_value s \<noteq> Null \<and> exc_value s \<noteq> Py_None")
  case False
  then have "PyErr_SetObject fmt e o' s = Some (restore_value e s)"
    using e by (auto simp: PyErr_SetObject_def)
  with r show ?thesis by (auto simp: no_new_self_def)
next
  case active: True
  show ?thesis
  proof (cases "normalize_value e s")
    case (Inl s1)
    then have "PyErr_SetObject fmt e o' s = Some s1"
      using e active by (auto simp: PyErr_SetObject_def)
    moreover have "heap s1 = heap s"
      using normalize_value_Inl [OF Inl] by (simp add: PyErr_Clear_def PyErr_Restore_def)
    ultimately show ?thesis using r by (auto simp: no_new_self_def)
  next
    case (Inr s1)
    have c1: "cut_of (heap s) (heap s1)" using Inr by (rule normalize_value_Inr_cut)
    obtain r0 where r0: "value' s1 = Inst r0"
      using normalize_value_Inr_Inst [OF Inr] by blast
    show ?thesis
    proof (cases "exc_value s = value' s1")
      case True
      then have "PyErr_SetObject fmt e o' s = Some (restore_value e s1)"
        using e active Inr by (auto simp: PyErr_SetObject_def)
      with r c1 show ?thesis by (auto dest: cut_of_no_new_self)
    next
      case False
      then obtain h' where h': "context_walk (heap s1) (value' s1) (exc_value s) = Some h'"
        and s': "s' = restore_value e (s1\<lparr>heap := PyException_SetContext h' (value' s1) (exc_value s)\<rparr>)"
        using e active Inr r by (auto simp: PyErr_SetObject_def Let_def split: option.splits)
      have "cut_of (heap s) h'"
        using c1 context_walk_cut_of [OF h'] by (rule cut_of_trans)
      then have "no_new_self (heap s) h'" by (rule cut_of_no_new_self)
      with False r0 have "no_new_self (heap s) (PyException_SetContext h' (Inst r0) (exc_value s))"
        by (intro link_no_new_self) auto
      with s' r0 show ?thesis by simp
    qed
  qed
qed

lemma normalize_value_Cls:
  assumes "\<not> PyExceptionInstance_Check (value' s)"
  shows "normalize_value (Cls k) s =
     Inr (s\<lparr>exc_type := Null, exc_value := Null, exc_traceback := Null,
            heap := (heap s)(nextref s :=
               \<lparr>cls = Cls k, args = constructor_args (value' s), context' = Null,
                traceback = Null\<rparr>),
            nextref := Suc (nextref s), value' := Inst (nextref s)\<rparr>)"
  using assms
  by (cases "value' s")
     (simp_all add: normalize_value_def PyErr_Clear_def PyErr_Restore_def
      PyExceptionInstance_Check_def PyEval_CallObject_def PyTuple_New0_def PyTuple_Pack1_def
      PyTuple_Check_def Let_def)

lemma context_walk_fields:
  assumes "context_walk h v e = Some h'"
  shows "cls (h' r) = cls (h r) \<and> args (h' r) = args (h r) \<and> traceback (h' r) = traceback (h r)"
  by (rule context_walk.raw_induct [rotated, OF assms,
        where P = "\<lambda>h v e h'. cls (h' r) = cls (h r) \<and> args (h' r) = args (h r)
           \<and> traceback (h' r) = traceback (h r)"])
     (auto simp: Let_def PyException_SetContext_def split: if_splits pyval.splits)

lemma normalize_value_Cls_Inr: "\<exists>s1. normalize_value (Cls k) s = Inr s1"
proof (cases "PyExceptionInstance_Check (value' s)")
  case True
  then show ?thesis
    by (auto simp: normalize_value_def PyExceptionInstance_Check_def split: pyval.splits)
next
  case False
  then show ?thesis by (simp add: normalize_value_Cls)
qed

lemma PyErr_SetObject_exc_type:
  assumes "PyErr_SetObject fmt (Cls k) o' s = Some s'"
  shows "exc_type s' = Cls k"
proof -
  obtain s1 where "normalize_value (Cls k) s = Inr s1"
    using normalize_value_Cls_Inr by blast
  with assms show ?thesis
    by (auto simp: PyErr_SetObject_def PyExceptionClass_Check_def Let_def
        split: if_splits option.splits)
qed

subsection \<open>The example states\<close>

lemma acyclic_demo_heap: "acyclic_heap demo_heap"
  unfolding acyclic_heap_def
proof
  fix v
  have "context_chain demo_heap v
          (if v = Inst 1 then [Inst 2, Inst 0] else if v = Inst 2 then [Inst 0] else [])"
    by (cases v) (auto simp: demo_heap_def empty_record_def PyException_GetContext_def)
  then show "\<exists>cs. context_chain demo_heap v cs" ..
qed

lemma demo_raise:
  "raises demo_format [(Cls TabError, Null)] demo_state =
     Some (demo_state\<lparr>exc_type := Cls TabError, exc_value := Inst 0,
        heap := demo_heap(2 := empty_record, 0 := empty_record\<lparr>context' := Inst 1\<rparr>)\<rparr>)"
  by (simp add: demo_state_def demo_heap_def PyErr_SetObject_def normalize_value_def
      PyExceptionClass_Check_def PyExceptionInstance_Check_def restore_value_def
      PyErr_Restore_def PyException_GetTraceback_def PyException_SetContext_def
      PyException_GetContext_def context_walk.simps empty_record_def fun_upd_twist)

lemma acyclic_empty_heap: "acyclic_heap (\<lambda>r. empty_record)"
  unfolding acyclic_heap_def
proof
  fix v
  have "context_chain (\<lambda>r. empty_record) v []"
    by (cases v) (auto simp: empty_record_def PyException_GetContext_def)
  then show "\<exists>cs. context_chain (\<lambda>r. empty_record) v cs" ..
qed

lemmas chainer_defs = PyErr_SetObject_def normalize_value_def
  PyExceptionClass_Check_def PyExceptionInstance_Check_def restore_value_def
  PyErr_Restore_def PyErr_Clear_def PyException_GetTraceback_def PyException_SetContext_def
  PyException_GetContext_def PyEval_CallObject_def PyTuple_New0_def PyTuple_Pack1_def
  PyTuple_Check_def

subsection \<open>The claims on the chainer\<close>

text \<open>
  Claim C2. From a heap in which every context chain is finite, any sequence of raises
  (each with an exception class, or with no class) returns, and afterwards every
  context chain is finite again; the chain of the active value visits no value twice.
  The chainer keeps this by cutting, on the chain of the previously active value, the
  link that leads to the new value before it links the new value to the previously
  active one.
\<close>

theorem chain_stays_acyclic:
  assumes "acyclic_heap (heap s)"
    and "\<forall>(e, o') \<in> set rs. e = Null \<or> PyExceptionClass_Check e"
  shows "\<exists>s' cs. raises fmt rs s = Some s' \<and> acyclic_heap (heap s') \<and>
           context_chain (heap s') (exc_value s') cs \<and> distinct (exc_value s' # cs)"
proof -
  from raises_acyclic [OF assms] obtain s' where
    s': "raises fmt rs s = Some s'" "acyclic_heap (heap s')" by blast
  then obtain cs where cs: "context_chain (heap s') (exc_value s') cs"
    unfolding acyclic_heap_def by blast
  then have "distinct (exc_value s' # cs)" by (rule context_chain_distinct)
  with s' cs show ?thesis by blast
qed

theorem chain_stays_acyclic_witness:
  "raises demo_format [(Cls TabError, Null)] demo_state =
     Some (demo_state\<lparr>exc_type := Cls TabError, exc_value := Inst 0,
        heap := demo_heap(2 := empty_record, 0 := empty_record\<lparr>context' := Inst 1\<rparr>)\<rparr>) \<and>
   (\<exists>s' cs. raises demo_format [(Cls TabError, Null), (Cls SyntaxError, Str ''x'')]
                demo_state = Some s' \<and>
      acyclic_heap (heap s') \<and> context_chain (heap s') (exc_value s') cs \<and>
      distinct (exc_value s' # cs))"
  using chain_stays_acyclic [of demo_state
      "[(Cls TabError, Null), (Cls SyntaxError, Str ''x'')]" demo_format]
    acyclic_demo_heap demo_raise
  by (simp add: demo_state_def PyExceptionClass_Check_def)

text \<open>
  Claim C10. When the value the chainer raises is the record that is already active,
  the chain block of lines 82 to 93 is skipped: the call returns with the heap as it
  was. And no call of the chainer makes a record its own context: a record that is its
  own context after a call was so before. The call returns whenever the context chains
  are finite.
\<close>

theorem never_own_context:
  assumes "e = Null \<or> PyExceptionClass_Check e"
  shows "(exc_value s = value' s \<and> PyExceptionInstance_Check (value' s) \<longrightarrow>
            PyErr_SetObject fmt e o' s = Some (restore_value e s) \<and>
            heap (restore_value e s) = heap s) \<and>
         (\<forall>s' r. PyErr_SetObject fmt e o' s = Some s' \<and> context' (heap s' r) = Inst r \<longrightarrow>
            context' (heap s r) = Inst r) \<and>
         (acyclic_heap (heap s) \<longrightarrow> (\<exists>s'. PyErr_SetObject fmt e o' s = Some s'))"
proof (intro conjI impI allI)
  assume a: "exc_value s = value' s \<and> PyExceptionInstance_Check (value' s)"
  then have "normalize_value e s = Inr s" "value' s \<noteq> Null" "value' s \<noteq> Py_None"
    by (auto simp: normalize_value_def PyExceptionInstance_Check_def split: pyval.splits)
  with a assms show "PyErr_SetObject fmt e o' s = Some (restore_value e s)"
    by (auto simp: PyErr_SetObject_def)
next
  show "heap (restore_value e s) = heap s" by simp
next
  fix s' r
  assume "PyErr_SetObject fmt e o' s = Some s' \<and> context' (heap s' r) = Inst r"
  with PyErr_SetObject_no_new_self [OF assms, of fmt o' s s']
  show "context' (heap s r) = Inst r" by (simp add: no_new_self_def)
next
  assume "acyclic_heap (heap s)"
  from PyErr_SetObject_acyclic [OF this assms]
  show "\<exists>s'. PyErr_SetObject fmt e o' s = Some s'" by blast
qed

theorem never_own_context_witness:
  "PyErr_SetObject demo_format (Cls TabError) Null (demo_state\<lparr>value' := Inst 1\<rparr>) =
     Some (restore_value (Cls TabError) (demo_state\<lparr>value' := Inst 1\<rparr>)) \<and>
   heap (restore_value (Cls TabError) (demo_state\<lparr>value' := Inst 1\<rparr>)) = demo_heap \<and>
   (\<exists>s'. PyErr_SetObject demo_format (Cls TabError) Null demo_state = Some s')"
  using never_own_context [of "Cls TabError" "demo_state\<lparr>value' := Inst 1\<rparr>" demo_format Null]
    never_own_context [of "Cls TabError" demo_state demo_format Null] acyclic_demo_heap
  by (simp add: demo_state_def PyExceptionClass_Check_def PyExceptionInstance_Check_def)

text \<open>
  Claim C3 fails on the code. The chainer does not read its second parameter: two calls
  that differ in it only give the same result. With the record 0 active and the
  variable \<^verbatim>\<open>value\<close> at null, raising the record 1 installs a new record 2, made with
  no arguments, and leaves the context of the record 1 unset.
\<close>

theorem raised_value_dropped:
  "PyErr_SetObject fmt e o1 s = PyErr_SetObject fmt e o2 s \<and>
   map_option exc_value (PyErr_SetObject fmt (Cls TabError) (Inst 1) a_active) =
     Some (Inst 2) \<and>
   map_option (context' \<circ> (\<lambda>h. h 1) \<circ> heap)
     (PyErr_SetObject fmt (Cls TabError) (Inst 1) a_active) = Some Null"
  by (simp add: a_active_def chainer_defs context_walk.simps empty_record_def)

text \<open>
  Claim C8, as amended. When no exception is active, the chainer installs the value as
  it is, with no coercion. When an exception is active and the value is no instance
  (and the active value is not the next unused reference), the chainer returns with a
  new instance installed: its class is the kind raised, its arguments are none for an
  absent value, the elements of a tuple, the value alone otherwise, and its context is
  the previously active value.
\<close>

theorem coercion:
  "((exc_value s = Null \<or> exc_value s = Py_None) \<longrightarrow>
      PyErr_SetObject fmt (Cls k) o' s =
        Some (s\<lparr>exc_type := Cls k, exc_value := value' s,
                exc_traceback := PyException_GetTraceback (heap s) (value' s)\<rparr>)) \<and>
   (exc_value s \<noteq> Null \<and> exc_value s \<noteq> Py_None \<and>
    \<not> PyExceptionInstance_Check (value' s) \<and> acyclic_heap (heap s) \<and>
    exc_value s \<noteq> Inst (nextref s) \<longrightarrow>
      (\<exists>s'. PyErr_SetObject fmt (Cls k) o' s = Some s' \<and>
         exc_type s' = Cls k \<and> exc_value s' = Inst (nextref s) \<and>
         cls (heap s' (nextref s)) = Cls k \<and>
         args (heap s' (nextref s)) = constructor_args (value' s) \<and>
         context' (heap s' (nextref s)) = exc_value s))"
proof (intro conjI impI)
  assume "exc_value s = Null \<or> exc_value s = Py_None"
  then show "PyErr_SetObject fmt (Cls k) o' s =
        Some (s\<lparr>exc_type := Cls k, exc_value := value' s,
                exc_traceback := PyException_GetTraceback (heap s) (value' s)\<rparr>)"
    by (cases "value' s")
       (auto simp: PyErr_SetObject_def PyExceptionClass_Check_def restore_value_def
        PyErr_Restore_def PyExceptionInstance_Check_def PyException_GetTraceback_def)
next
  assume a: "exc_value s \<noteq> Null \<and> exc_value s \<noteq> Py_None \<and>
    \<not> PyExceptionInstance_Check (value' s) \<and> acyclic_heap (heap s) \<and>
    exc_value s \<noteq> Inst (nextref s)"
  let ?s1 = "s\<lparr>exc_type := Null, exc_value := Null, exc_traceback := Null,
            heap := (heap s)(nextref s :=
               \<lparr>cls = Cls k, args = constructor_args (value' s), context' = Null,
                traceback = Null\<rparr>),
            nextref := Suc (nextref s), value' := Inst (nextref s)\<rparr>"
  have n: "normalize_value (Cls k) s = Inr ?s1" using a by (simp add: normalize_value_Cls)
  have "acyclic_heap (heap ?s1)"
    using normalize_value_Inr_cut [OF n] a by (auto intro: cut_of_acyclic)
  then obtain cs where cs: "context_chain (heap ?s1) (exc_value s) cs"
    unfolding acyclic_heap_def by blast
  from context_walk_chain [OF cs, of "Inst (nextref s)"] obtain h' where
    h': "context_walk (heap ?s1) (Inst (nextref s)) (exc_value s) = Some h'" by blast
  have f: "cls (h' (nextref s)) = Cls k" "args (h' (nextref s)) = constructor_args (value' s)"
    using context_walk_fields [OF h', of "nextref s"] by simp_all
  have "PyErr_SetObject fmt (Cls k) o' s =
     Some (restore_value (Cls k)
        (?s1\<lparr>heap := PyException_SetContext h' (Inst (nextref s)) (exc_value s)\<rparr>))"
    using a n h' by (simp add: PyErr_SetObject_def PyExceptionClass_Check_def)
  then show "\<exists>s'. PyErr_SetObject fmt (Cls k) o' s = Some s' \<and>
         exc_type s' = Cls k \<and> exc_value s' = Inst (nextref s) \<and>
         cls (heap s' (nextref s)) = Cls k \<and>
         args (heap s' (nextref s)) = constructor_args (value' s) \<and>
         context' (heap s' (nextref s)) = exc_value s"
    using f by (simp add: PyException_SetContext_def)
qed

theorem coercion_witness:
  "PyErr_SetObject demo_format (Cls TabError) Null (idle\<lparr>value' := Tuple [Str ''m'']\<rparr>) =
     Some (idle\<lparr>exc_type := Cls TabError, exc_value := Tuple [Str ''m''],
             value' := Tuple [Str ''m'']\<rparr>) \<and>
   (\<exists>s'. PyErr_SetObject demo_format (Cls TabError) Null
            (a_active\<lparr>value' := Tuple [Str ''m'', Num 1]\<rparr>) = Some s' \<and>
      exc_type s' = Cls TabError \<and> exc_value s' = Inst 2 \<and>
      cls (heap s' 2) = Cls TabError \<and> args (heap s' 2) = [Str ''m'', Num 1] \<and>
      context' (heap s' 2) = Inst 0)"
  using coercion [of "idle\<lparr>value' := Tuple [Str ''m'']\<rparr>" demo_format TabError Null]
    coercion [of "a_active\<lparr>value' := Tuple [Str ''m'', Num 1]\<rparr>" demo_format TabError Null]
    acyclic_empty_heap
  by (simp add: idle_def a_active_def PyExceptionInstance_Check_def
      PyException_GetTraceback_def)

text \<open>
  The claim C8 as the spec states it fails: with no exception active, a raw string is
  installed as it is, and it is no instance.
\<close>

theorem no_coercion_when_idle:
  "map_option exc_value
     (PyErr_SetObject demo_format (Cls SyntaxError) (Str ''boom'')
        (idle\<lparr>value' := Str ''boom''\<rparr>)) = Some (Str ''boom'') \<and>
   \<not> PyExceptionInstance_Check (Str ''boom'')"
  by (simp add: idle_def chainer_defs)

section \<open>Properties of the error classifier\<close>

lemma err_input_call_unfold:
  "err_input_call err s =
     (if error err = E_ERROR then (No_call, s)
      else if error err = E_INTR then
        (if \<not> PyErr_Occurred s then (Call_SetNone (Cls KeyboardInterrupt), s)
         else (No_call, s))
      else if error err = E_NOMEM then (Call_SetNone (Cls MemoryError), s)
      else if error err = E_DECODE then
        (Call_SetObject (Cls SyntaxError)
           (payload ''unknown decode error'' (exc_value s) err), PyErr_Clear s)
      else if error err = E_SYNTAX then
        (if expected err = INDENT then
           raising IndentationError ''expected an indented block'' err s
         else if token err = INDENT then raising IndentationError ''unexpected indent'' err s
         else if token err = DEDENT then raising IndentationError ''unexpected unindent'' err s
         else raising SyntaxError ''invalid syntax'' err s)
      else if error err = E_TOKEN then raising SyntaxError ''invalid token'' err s
      else if error err = E_EOFS then
        raising SyntaxError ''EOF while scanning triple-quoted string literal'' err s
      else if error err = E_EOLS then
        raising SyntaxError ''EOL while scanning string literal'' err s
      else if error err = E_EOF then
        raising SyntaxError ''unexpected EOF while parsing'' err s
      else if error err = E_TABSPACE then
        raising TabError ''inconsistent use of tabs and spaces in indentation'' err s
      else if error err = E_OVERFLOW then raising SyntaxError ''expression too long'' err s
      else if error err = E_DEDENT then
        raising IndentationError
          ''unindent does not match any outer indentation level'' err s
      else if error err = E_TOODEEP then
        raising IndentationError ''too many levels of indentation'' err s
      else if error err = E_LINECONT then
        raising SyntaxError
          ''unexpected character after line continuation character'' err s
      else if error err = E_IDENTIFIER then
        raising SyntaxError ''invalid character in identifier'' err s
      else if error err = E_BADSINGLE then
        raising SyntaxError
          ''multiple statements found while compiling a single statement'' err s
      else raising SyntaxError ''unknown parsing error'' err s)"
  by (cases "error err")
     (simp_all add: err_input_call_def raising_def payload_def PyErr_Fetch_def Let_def)

lemma err_input_call_class:
  "fst (err_input_call err s) = No_call \<or>
   (\<exists>k. fst (err_input_call err s) = Call_SetNone (Cls k)) \<or>
   (\<exists>k w. fst (err_input_call err s) = Call_SetObject (Cls k) w)"
  by (cases "error err")
     (simp_all add: err_input_call_def PyErr_Fetch_def Let_def split: prod.splits)

lemma err_input_call_heap: "heap (snd (err_input_call err s)) = heap s"
  by (cases "error err")
     (simp_all add: err_input_call_def PyErr_Fetch_def PyErr_Clear_def PyErr_Restore_def
        Let_def split: prod.splits)

lemma err_input_returns:
  assumes "acyclic_heap (heap s)"
  shows "\<exists>s'. err_input fmt err s = Some s'"
proof -
  obtain c s1 where c: "err_input_call err s = (c, s1)" by (cases "err_input_call err s")
  then have a1: "acyclic_heap (heap s1)"
    using assms err_input_call_heap [of err s] by simp
  have set: "\<exists>s'. PyErr_SetObject fmt (Cls k) o' s1 = Some s'" for k o'
  proof -
    have "Cls k = Null \<or> PyExceptionClass_Check (Cls k)"
      by (simp add: PyExceptionClass_Check_def)
    from PyErr_SetObject_acyclic [OF a1 this] show ?thesis by blast
  qed
  from err_input_call_class [of err s] c
  consider "c = No_call" | k where "c = Call_SetNone (Cls k)"
    | k w where "c = Call_SetObject (Cls k) w"
    by auto
  then show ?thesis
  proof cases
    case 1
    then show ?thesis using c by (simp add: err_input_def)
  next
    case 2
    then show ?thesis using c set [of k Null] by (simp add: err_input_def PyErr_SetNone_def)
  next
    case 3
    then show ?thesis using c set [of k w] by (simp add: err_input_def)
  qed
qed

lemma err_input_exc_type:
  assumes "err_input fmt err s = Some s'"
  shows "(\<forall>k w. fst (err_input_call err s) = Call_SetObject (Cls k) w \<longrightarrow>
            exc_type s' = Cls k) \<and>
         (\<forall>k. fst (err_input_call err s) = Call_SetNone (Cls k) \<longrightarrow> exc_type s' = Cls k)"
proof (intro conjI allI impI)
  fix k w
  assume "fst (err_input_call err s) = Call_SetObject (Cls k) w"
  then obtain s1 where "err_input_call err s = (Call_SetObject (Cls k) w, s1)"
    by (cases "err_input_call err s") simp
  with assms have "PyErr_SetObject fmt (Cls k) w s1 = Some s'"
    by (simp add: err_input_def)
  then show "exc_type s' = Cls k" by (rule PyErr_SetObject_exc_type)
next
  fix k
  assume "fst (err_input_call err s) = Call_SetNone (Cls k)"
  then obtain s1 where "err_input_call err s = (Call_SetNone (Cls k), s1)"
    by (cases "err_input_call err s") simp
  with assms have "PyErr_SetObject fmt (Cls k) Null s1 = Some s'"
    by (simp add: err_input_def PyErr_SetNone_def)
  then show "exc_type s' = Cls k" by (rule PyErr_SetObject_exc_type)
qed

text \<open>
  Claim C1, as amended. For every kind of the table of fixed messages, the classifier
  calls \<^verbatim>\<open>PyErr_SetObject\<close> with the paired exception kind and with the payload made
  of the fixed message and the position tuple (file name, line number, offset, and the
  text or null); for \<open>E_SYNTAX\<close> the kind and the message follow the expected token and
  the offending token, in this order; for \<open>E_NOMEM\<close> it calls \<^verbatim>\<open>PyErr_SetNone\<close> with
  \<open>MemoryError\<close>; every kind with no arm in the switch (\<open>E_OK\<close> and \<open>E_DONE\<close> among
  them) is raised as \<open>SyntaxError\<close> with "unknown parsing error"; on the kind \<open>E_ERROR\<close>
  it makes no call and returns. The result of the classifier is the result of the call
  it makes, the exception kind installed is the kind of the call, and the classifier
  returns whenever the context chains are finite.
\<close>

theorem classification:
  "(\<forall>(c, k, m) \<in> set fixed_messages.
      error err = c \<longrightarrow> err_input_call err s = raising k m err s) \<and>
   (error err = E_SYNTAX \<longrightarrow>
      err_input_call err s =
        (if expected err = INDENT then
           raising IndentationError ''expected an indented block'' err s
         else if token err = INDENT then
           raising IndentationError ''unexpected indent'' err s
         else if token err = DEDENT then
           raising IndentationError ''unexpected unindent'' err s
         else raising SyntaxError ''invalid syntax'' err s)) \<and>
   (error err = E_NOMEM \<longrightarrow> err_input_call err s = (Call_SetNone (Cls MemoryError), s)) \<and>
   (error err \<in> {E_OK, E_DONE} \<union> range E_OTHER \<longrightarrow>
      err_input_call err s = raising SyntaxError ''unknown parsing error'' err s) \<and>
   (error err = E_ERROR \<longrightarrow>
      err_input_call err s = (No_call, s) \<and> err_input fmt err s = Some s) \<and>
   raising k0 m0 err s = (Call_SetObject (Cls k0)
      (Tuple [Str m0,
         Tuple [Str (filename err), Num (lineno err), Num (offset err),
           (case text' err of None \<Rightarrow> Null | Some t \<Rightarrow> if t = [] then Null else Str t)]]),
      s) \<and>
   (\<forall>e w s1. err_input_call err s = (Call_SetObject e w, s1) \<longrightarrow>
      err_input fmt err s = PyErr_SetObject fmt e w s1) \<and>
   (\<forall>e s1. err_input_call err s = (Call_SetNone e, s1) \<longrightarrow>
      err_input fmt err s = PyErr_SetObject fmt e Null s1) \<and>
   (\<forall>s'. err_input fmt err s = Some s' \<longrightarrow>
      (\<forall>k w. fst (err_input_call err s) = Call_SetObject (Cls k) w \<longrightarrow>
         exc_type s' = Cls k) \<and>
      (\<forall>k. fst (err_input_call err s) = Call_SetNone (Cls k) \<longrightarrow> exc_type s' = Cls k)) \<and>
   (acyclic_heap (heap s) \<longrightarrow> (\<exists>s'. err_input fmt err s = Some s'))"
proof (intro conjI)
  show "\<forall>(c, k, m) \<in> set fixed_messages.
      error err = c \<longrightarrow> err_input_call err s = raising k m err s"
    by (simp add: fixed_messages_def err_input_call_unfold)
  show "error err = E_SYNTAX \<longrightarrow>
      err_input_call err s =
        (if expected err = INDENT then
           raising IndentationError ''expected an indented block'' err s
         else if token err = INDENT then
           raising IndentationError ''unexpected indent'' err s
         else if token err = DEDENT then
           raising IndentationError ''unexpected unindent'' err s
         else raising SyntaxError ''invalid syntax'' err s)"
    by (simp add: err_input_call_unfold)
  show "error err = E_NOMEM \<longrightarrow> err_input_call err s = (Call_SetNone (Cls MemoryError), s)"
    by (simp add: err_input_call_unfold)
  show "error err \<in> {E_OK, E_DONE} \<union> range E_OTHER \<longrightarrow>
      err_input_call err s = raising SyntaxError ''unknown parsing error'' err s"
    by (auto simp: err_input_call_unfold)
  show "error err = E_ERROR \<longrightarrow>
      err_input_call err s = (No_call, s) \<and> err_input fmt err s = Some s"
    by (simp add: err_input_call_unfold err_input_def)
  show "raising k0 m0 err s = (Call_SetObject (Cls k0)
      (Tuple [Str m0,
         Tuple [Str (filename err), Num (lineno err), Num (offset err),
           (case text' err of None \<Rightarrow> Null | Some t \<Rightarrow> if t = [] then Null else Str t)]]),
      s)"
    by (simp add: raising_def position_def)
  show "\<forall>e w s1. err_input_call err s = (Call_SetObject e w, s1) \<longrightarrow>
      err_input fmt err s = PyErr_SetObject fmt e w s1"
    by (simp add: err_input_def)
  show "\<forall>e s1. err_input_call err s = (Call_SetNone e, s1) \<longrightarrow>
      err_input fmt err s = PyErr_SetObject fmt e Null s1"
    by (simp add: err_input_def PyErr_SetNone_def)
  show "\<forall>s'. err_input fmt err s = Some s' \<longrightarrow>
      (\<forall>k w. fst (err_input_call err s) = Call_SetObject (Cls k) w \<longrightarrow>
         exc_type s' = Cls k) \<and>
      (\<forall>k. fst (err_input_call err s) = Call_SetNone (Cls k) \<longrightarrow> exc_type s' = Cls k)"
    using err_input_exc_type by blast
  show "acyclic_heap (heap s) \<longrightarrow> (\<exists>s'. err_input fmt err s = Some s')"
    by (auto intro: err_input_returns)
qed

theorem classification_witness:
  "err_input_call ((new_ErrorDetail None)\<lparr>error := E_TABSPACE\<rparr>) idle =
     (Call_SetObject (Cls TabError)
        (Tuple [Str ''inconsistent use of tabs and spaces in indentation'',
           Tuple [Str ''<string>'', Num 0, Num 0, Null]]), idle) \<and>
   err_input_call ((new_ErrorDetail None)\<lparr>error := E_SYNTAX, token := DEDENT\<rparr>) idle =
     raising IndentationError ''unexpected unindent''
       ((new_ErrorDetail None)\<lparr>error := E_SYNTAX, token := DEDENT\<rparr>) idle \<and>
   err_input_call ((new_ErrorDetail None)\<lparr>error := E_OTHER 99\<rparr>) idle =
     raising SyntaxError ''unknown parsing error''
       ((new_ErrorDetail None)\<lparr>error := E_OTHER 99\<rparr>) idle \<and>
   (\<exists>s'. err_input demo_format ((new_ErrorDetail None)\<lparr>error := E_TABSPACE\<rparr>) idle =
      Some s')"
proof (intro conjI)
  let ?tab = "(new_ErrorDetail None)\<lparr>error := E_TABSPACE\<rparr>"
  let ?syn = "(new_ErrorDetail None)\<lparr>error := E_SYNTAX, token := DEDENT\<rparr>"
  let ?oth = "(new_ErrorDetail None)\<lparr>error := E_OTHER 99\<rparr>"
  note tab = classification [of ?tab idle demo_format TabError
    "''inconsistent use of tabs and spaces in indentation''"]
  have "(E_TABSPACE, TabError, ''inconsistent use of tabs and spaces in indentation'')
          \<in> set fixed_messages"
    by (simp add: fixed_messages_def)
  with tab [THEN conjunct1]
  have "err_input_call ?tab idle =
          raising TabError ''inconsistent use of tabs and spaces in indentation'' ?tab idle"
    by fastforce
  then show "err_input_call ?tab idle =
     (Call_SetObject (Cls TabError)
        (Tuple [Str ''inconsistent use of tabs and spaces in indentation'',
           Tuple [Str ''<string>'', Num 0, Num 0, Null]]), idle)"
    by (simp add: raising_def position_def new_ErrorDetail_def)
  from classification [of ?syn idle demo_format, THEN conjunct2, THEN conjunct1]
  show "err_input_call ?syn idle =
          raising IndentationError ''unexpected unindent'' ?syn idle"
    by (simp add: new_ErrorDetail_def token_defs)
  have "error ?oth \<in> {E_OK, E_DONE} \<union> range E_OTHER" by simp
  with classification [of ?oth idle demo_format]
  show "err_input_call ?oth idle = raising SyntaxError ''unknown parsing error'' ?oth idle"
    by blast
  have "acyclic_heap (heap idle)" by (simp add: idle_def acyclic_empty_heap)
  with tab show "\<exists>s'. err_input demo_format ?tab idle = Some s'" by blast
qed

text \<open>
  The claim C1 as the spec states it fails: the kind \<open>E_ERROR\<close> is not \<open>E_OK\<close> and is not
  in the table of the spec, and the classifier returns on it with nothing raised.
\<close>

theorem error_kind_dropped:
  "err_input demo_format ((new_ErrorDetail None)\<lparr>error := E_ERROR\<rparr>) idle = Some idle \<and>
   \<not> PyErr_Occurred idle"
  by (simp add: err_input_def err_input_call_def new_ErrorDetail_def idle_def
      PyErr_Occurred_def)

text \<open>
  Claim C4, as amended. On the kind \<open>E_ERROR\<close> the classifier makes no call of the
  chainer and returns with the exception state as it was. On \<open>E_INTR\<close> it does the same
  when an exception is active, and calls \<^verbatim>\<open>PyErr_SetNone\<close> with \<open>KeyboardInterrupt\<close>
  when none is. These are the only outcomes with nothing raised: for every other kind
  (for \<open>E_OK\<close> too, which has no arm in the switch) the classifier calls the chainer,
  its result is the result of that call, and an exception is active afterwards. The
  classifier returns whenever the context chains are finite.
\<close>

theorem silent_outcomes:
  "(error err = E_ERROR \<longrightarrow>
      err_input_call err s = (No_call, s) \<and> err_input fmt err s = Some s) \<and>
   (error err = E_INTR \<and> PyErr_Occurred s \<longrightarrow>
      err_input_call err s = (No_call, s) \<and> err_input fmt err s = Some s) \<and>
   (error err = E_INTR \<and> \<not> PyErr_Occurred s \<longrightarrow>
      err_input_call err s = (Call_SetNone (Cls KeyboardInterrupt), s) \<and>
      err_input fmt err s = PyErr_SetObject fmt (Cls KeyboardInterrupt) Null s \<and>
      (\<forall>s'. err_input fmt err s = Some s' \<longrightarrow> exc_type s' = Cls KeyboardInterrupt)) \<and>
   (fst (err_input_call err s) = No_call \<longleftrightarrow>
      error err = E_ERROR \<or> (error err = E_INTR \<and> PyErr_Occurred s)) \<and>
   (\<forall>e w s1. err_input_call err s = (Call_SetObject e w, s1) \<longrightarrow>
      err_input fmt err s = PyErr_SetObject fmt e w s1) \<and>
   (\<forall>e s1. err_input_call err s = (Call_SetNone e, s1) \<longrightarrow>
      err_input fmt err s = PyErr_SetObject fmt e Null s1) \<and>
   (fst (err_input_call err s) \<noteq> No_call \<longrightarrow>
      (\<forall>s'. err_input fmt err s = Some s' \<longrightarrow> PyErr_Occurred s')) \<and>
   (acyclic_heap (heap s) \<longrightarrow> (\<exists>s'. err_input fmt err s = Some s'))"
proof (intro conjI)
  show "error err = E_ERROR \<longrightarrow>
      err_input_call err s = (No_call, s) \<and> err_input fmt err s = Some s"
    by (simp add: err_input_call_unfold err_input_def)
  show "error err = E_INTR \<and> PyErr_Occurred s \<longrightarrow>
      err_input_call err s = (No_call, s) \<and> err_input fmt err s = Some s"
    by (simp add: err_input_call_unfold err_input_def)
  show "error err = E_INTR \<and> \<not> PyErr_Occurred s \<longrightarrow>
      err_input_call err s = (Call_SetNone (Cls KeyboardInterrupt), s) \<and>
      err_input fmt err s = PyErr_SetObject fmt (Cls KeyboardInterrupt) Null s \<and>
      (\<forall>s'. err_input fmt err s = Some s' \<longrightarrow> exc_type s' = Cls KeyboardInterrupt)"
  proof (intro impI conjI allI)
    assume a: "error err = E_INTR \<and> \<not> PyErr_Occurred s"
    then show c: "err_input_call err s = (Call_SetNone (Cls KeyboardInterrupt), s)"
      by (simp add: err_input_call_unfold)
    then show e: "err_input fmt err s = PyErr_SetObject fmt (Cls KeyboardInterrupt) Null s"
      by (simp add: err_input_def PyErr_SetNone_def)
    fix s'
    assume "err_input fmt err s = Some s'"
    with e have "PyErr_SetObject fmt (Cls KeyboardInterrupt) Null s = Some s'" by simp
    then show "exc_type s' = Cls KeyboardInterrupt" by (rule PyErr_SetObject_exc_type)
  qed
  show "fst (err_input_call err s) = No_call \<longleftrightarrow>
      error err = E_ERROR \<or> (error err = E_INTR \<and> PyErr_Occurred s)"
    by (simp add: err_input_call_unfold raising_def)
  show "\<forall>e w s1. err_input_call err s = (Call_SetObject e w, s1) \<longrightarrow>
      err_input fmt err s = PyErr_SetObject fmt e w s1"
    by (simp add: err_input_def)
  show "\<forall>e s1. err_input_call err s = (Call_SetNone e, s1) \<longrightarrow>
      err_input fmt err s = PyErr_SetObject fmt e Null s1"
    by (simp add: err_input_def PyErr_SetNone_def)
  show "fst (err_input_call err s) \<noteq> No_call \<longrightarrow>
      (\<forall>s'. err_input fmt err s = Some s' \<longrightarrow> PyErr_Occurred s')"
  proof (intro impI allI)
    fix s'
    assume n: "fst (err_input_call err s) \<noteq> No_call" and r: "err_input fmt err s = Some s'"
    from err_input_call_class [of err s] n err_input_exc_type [OF r]
    have "\<exists>k. exc_type s' = Cls k" by blast
    then show "PyErr_Occurred s'" by (auto simp: PyErr_Occurred_def)
  qed
  show "acyclic_heap (heap s) \<longrightarrow> (\<exists>s'. err_input fmt err s = Some s')"
    by (auto intro: err_input_returns)
qed

theorem silent_outcomes_witness:
  "err_input demo_format ((new_ErrorDetail None)\<lparr>error := E_INTR\<rparr>) a_active =
     Some a_active \<and>
   err_input demo_format ((new_ErrorDetail None)\<lparr>error := E_INTR\<rparr>) idle =
     Some (idle\<lparr>exc_type := Cls KeyboardInterrupt\<rparr>) \<and>
   fst (err_input_call ((new_ErrorDetail None)\<lparr>error := E_TOKEN\<rparr>) a_active) \<noteq> No_call \<and>
   (\<exists>s'. err_input demo_format ((new_ErrorDetail None)\<lparr>error := E_TOKEN\<rparr>) a_active =
      Some s')"
proof (intro conjI)
  let ?intr = "(new_ErrorDetail None)\<lparr>error := E_INTR\<rparr>"
  let ?tok = "(new_ErrorDetail None)\<lparr>error := E_TOKEN\<rparr>"
  have "error ?intr = E_INTR \<and> PyErr_Occurred a_active"
    by (simp add: a_active_def PyErr_Occurred_def)
  with silent_outcomes [of ?intr a_active demo_format]
  show "err_input demo_format ?intr a_active = Some a_active" by blast
  have "error ?intr = E_INTR \<and> \<not> PyErr_Occurred idle"
    by (simp add: idle_def PyErr_Occurred_def)
  with silent_outcomes [of ?intr idle demo_format]
  have "err_input demo_format ?intr idle =
          PyErr_SetObject demo_format (Cls KeyboardInterrupt) Null idle" by blast
  then show "err_input demo_format ?intr idle = Some (idle\<lparr>exc_type := Cls KeyboardInterrupt\<rparr>)"
    by (simp add: idle_def chainer_defs)
  have "\<not> (error ?tok = E_ERROR \<or> (error ?tok = E_INTR \<and> PyErr_Occurred a_active))"
    by simp
  with silent_outcomes [of ?tok a_active demo_format]
  show "fst (err_input_call ?tok a_active) \<noteq> No_call" by blast
  have "acyclic_heap (heap a_active)" by (simp add: a_active_def acyclic_empty_heap)
  with silent_outcomes [of ?tok a_active demo_format]
  show "\<exists>s'. err_input demo_format ?tok a_active = Some s'" by blast
qed

text \<open>
  The claim C4 as the spec states it fails: the kind \<open>E_OK\<close>, with which every
  \<^verbatim>\<open>ErrorDetail\<close> starts, is raised as a \<open>SyntaxError\<close>.
\<close>

theorem ok_is_raised:
  "error (new_ErrorDetail None) = E_OK \<and> \<not> PyErr_Occurred idle \<and>
   map_option exc_type (err_input demo_format (new_ErrorDetail None) idle) =
     Some (Cls SyntaxError)"
  by (simp add: err_input_def err_input_call_def new_ErrorDetail_def idle_def
      PyErr_Occurred_def chainer_defs)

end
